theory Spec2Isabelle
  imports Main "HOL-Library.Word" "HOL-Library.AList"
begin

section \<open>Strings and library functions\<close>

text \<open>
  Go strings and byte slices are sequences of bytes; both are modelled as \<open>string\<close>
  (a list of 8-bit characters).  The functions of this section stand for the standard
  library calls the client makes: \<open>strings.ToUpper\<close>, \<open>strings.ToLower\<close>,
  \<open>strings.Trim\<close>, \<open>strings.Split\<close>, \<open>strconv.Itoa\<close> and \<open>strconv.Atoi\<close>.
  Case mapping is the one of ASCII letters; bytes outside \<open>a-z\<close> and \<open>A-Z\<close> are kept.
\<close>

definition upper_char :: "char \<Rightarrow> char" where
  "upper_char c =
     (let n = (of_char c :: nat) in if 97 \<le> n \<and> n \<le> 122 then char_of (n - 32) else c)"

definition lower_char :: "char \<Rightarrow> char" where
  "lower_char c =
     (let n = (of_char c :: nat) in if 65 \<le> n \<and> n \<le> 90 then char_of (n + 32) else c)"

definition ToUpper :: "string \<Rightarrow> string" where
  "ToUpper s = map upper_char s"

definition ToLower :: "string \<Rightarrow> string" where
  "ToLower s = map lower_char s"

definition Trim :: "string \<Rightarrow> string \<Rightarrow> string" where
  "Trim s cutset =
     rev (dropWhile (\<lambda>c. c \<in> set cutset) (rev (dropWhile (\<lambda>c. c \<in> set cutset) s)))"

fun Split :: "string \<Rightarrow> char \<Rightarrow> string list" where
  "Split [] sep = [] # []"
| "Split (c # cs) sep =
     (if c = sep then [] # Split cs sep
      else (case Split cs sep of [] \<Rightarrow> [c] # [] | p # ps \<Rightarrow> (c # p) # ps))"

definition digit_char :: "nat \<Rightarrow> char" where
  "digit_char d = char_of (48 + d)"

definition is_digit :: "char \<Rightarrow> bool" where
  "is_digit c = (let n = (of_char c :: nat) in 48 \<le> n \<and> n \<le> 57)"

definition digit_val :: "char \<Rightarrow> nat" where
  "digit_val c = of_char c - 48"

fun decimal :: "nat \<Rightarrow> string" where
  "decimal n = (if n < 10 then [digit_char n] else decimal (n div 10) @ [digit_char (n mod 10)])"

declare decimal.simps [simp del]

definition Itoa :: "int \<Rightarrow> string" where
  "Itoa i = (if i < 0 then CHR ''-'' # decimal (nat (- i)) else decimal (nat i))"

definition decimal_val :: "string \<Rightarrow> int" where
  "decimal_val ds = foldl (\<lambda>acc c. 10 * acc + int (digit_val c)) 0 ds"

datatype error =
    ErrRead | ErrClose | ErrWrite | ErrEOF
  | ErrHeader
  | ErrSyntax | ErrRange
  | ErrUUID | ErrDial | ErrTLS
  | ErrNoContentType | ErrBadContentType string | ErrServer string
  | ErrNilBody
  | ErrTxDone | ErrChannelClosed

text \<open>
  \<open>strconv.Atoi\<close>: an optional sign, then one or more decimal digits; the value has to
  fit the 64-bit \<open>int\<close>.
\<close>

definition Atoi :: "string \<Rightarrow> error + int" where
  "Atoi s =
     (let (neg, ds) =
            (case s of
               [] \<Rightarrow> (False, s)
             | c # r \<Rightarrow> if c = CHR ''-'' then (True, r)
                        else if c = CHR ''+'' then (False, r) else (False, s))
      in if ds = [] \<or> \<not> list_all is_digit ds then Inl ErrSyntax
         else let v = (if neg then - decimal_val ds else decimal_val ds)
              in if v < - (2 ^ 63) \<or> 2 ^ 63 - 1 < v then Inl ErrRange else Inr v)"

section \<open>Frames\<close>

text \<open>
  An \<open>io.Reader\<close> handed to the client: the bytes it yields, whether reading ends in an
  error instead of a clean end of input, whether it has a \<open>Close\<close> method (and whether
  that method fails), and whether it has a \<open>Len\<close> method reporting the unread bytes, as
  the readers of the standard library do.
\<close>

record reader =
  contents :: string
  read_fails :: bool
  closer :: "bool option"
  sized :: bool

definition emptyBuffer :: reader where
  "emptyBuffer = \<lparr>contents = [], read_fails = False, closer = None, sized = True\<rparr>"

definition NopCloser :: "reader \<Rightarrow> reader" where
  "NopCloser r = r\<lparr>closer := Some False, sized := False\<rparr>"

text \<open>
  A Go map is an association list with distinct keys; \<open>m[k] = v\<close> is \<open>AList.update\<close>,
  a lookup is \<open>map_of\<close>.  The order of the list stands for the order in which
  \<open>range\<close> visits the map, which Go leaves open.  A nil map is read like an empty one.
\<close>

type_synonym headers = "(string \<times> string) list"

record frame =
  Command :: string
  Headers :: headers
  Body :: "reader option"

definition NewFrame :: "string \<Rightarrow> reader option \<Rightarrow> frame" where
  "NewFrame cmd body =
     (let body1 = (case body of None \<Rightarrow> emptyBuffer | Some b \<Rightarrow> b);
          rc = (if closer body1 = None then NopCloser body1 else body1)
      in \<lparr>Command = ToUpper cmd, Headers = [], Body = Some rc\<rparr>)"

definition set_header :: "string \<Rightarrow> string \<Rightarrow> frame \<Rightarrow> frame" where
  "set_header k v f = f\<lparr>Headers := AList.update k v (Headers f)\<rparr>"

section \<open>Building SEND frames\<close>

definition forbidden :: "string list" where
  "forbidden = [''destination'', ''id'', ''content-type'', ''content-length'',
                ''receipt'', ''transaction'']"

text \<open>
  \<open>merge_headers\<close> is the loop over the caller's map.  In \<open>makeSendFrame\<close> the
  length of the body is what \<open>Len\<close> reports when the body of the frame has that
  method; otherwise the body is copied to a buffer, which fails when reading or closing
  the body fails, and the buffer becomes the body of the frame.
\<close>

fun merge_headers :: "headers \<Rightarrow> frame \<Rightarrow> frame" where
  "merge_headers [] f = f"
| "merge_headers ((k, v) # rest) f =
     (let k1 = ToLower k
      in merge_headers rest (if k1 \<in> set forbidden then f else set_header k1 v f))"

definition makeSendFrame ::
  "string \<Rightarrow> headers option \<Rightarrow> string \<Rightarrow> reader option \<Rightarrow> error + frame" where
  "makeSendFrame dest hdrs bodyType body =
     (let f = set_header ''destination'' dest (NewFrame ''SEND'' body);
          measured =
            (case Body f of
               None \<Rightarrow> Inr f
             | Some b \<Rightarrow>
                 (case (if sized b then Inr (length (contents b), f)
                        else if read_fails b then Inl ErrRead
                        else if closer b = Some True then Inl ErrClose
                        else Inr (length (contents b),
                                  f\<lparr>Body := Some (NopCloser (emptyBuffer\<lparr>contents := contents b\<rparr>))\<rparr>))
                  of Inl e \<Rightarrow> Inl e
                   | Inr (n, f1) \<Rightarrow>
                       Inr (set_header ''content-length'' (Itoa (int n))
                             (set_header ''content-type'' bodyType f1))))
      in case measured of
           Inl e \<Rightarrow> Inl e
         | Inr f2 \<Rightarrow> Inr (case hdrs of None \<Rightarrow> f2 | Some hs \<Rightarrow> merge_headers hs f2))"

section \<open>Encoding\<close>

text \<open>
  An \<open>io.Writer\<close>: the bytes written so far and, when the stream breaks, the number of
  \<open>Write\<close> calls that still succeed before every later one fails.
\<close>

record writer =
  out :: string
  quota :: "nat option"

definition Write :: "writer \<Rightarrow> string \<Rightarrow> error option \<times> writer" where
  "Write w s =
     (case quota w of
        None \<Rightarrow> (None, w\<lparr>out := out w @ s\<rparr>)
      | Some 0 \<Rightarrow> (Some ErrWrite, w)
      | Some (Suc k) \<Rightarrow> (None, w\<lparr>out := out w @ s, quota := Some k\<rparr>))"

fun write_headers :: "headers \<Rightarrow> writer \<Rightarrow> error option \<times> writer" where
  "write_headers [] w = (None, w)"
| "write_headers ((k, v) # rest) w =
     (case Write w (k @ '':'' @ v @ [CHR 0x0A]) of
        (Some e, w1) \<Rightarrow> (Some e, w1)
      | (None, w1) \<Rightarrow> write_headers rest w1)"

text \<open>\<open>io.Copy\<close> of the body to the writer, then \<open>Close\<close> of the body.\<close>

definition copy_body :: "reader \<Rightarrow> writer \<Rightarrow> error option \<times> writer" where
  "copy_body b w =
     (case (if contents b = [] then (None, w) else Write w (contents b)) of
        (Some e, w1) \<Rightarrow> (Some e, w1)
      | (None, w1) \<Rightarrow>
          if read_fails b then (Some ErrRead, w1)
          else if closer b = Some True then (Some ErrClose, w1)
          else (None, w1))"

definition Encode :: "writer \<Rightarrow> frame \<Rightarrow> error option \<times> writer" where
  "Encode w f =
     (if Command f = ''HEARTBEAT'' then Write w [CHR 0x0A]
      else
        case Write w (Command f @ [CHR 0x0A]) of
          (Some e, w1) \<Rightarrow> (Some e, w1)
        | (None, w1) \<Rightarrow>
        case write_headers (Headers f) w1 of
          (Some e, w2) \<Rightarrow> (Some e, w2)
        | (None, w2) \<Rightarrow>
        case Write w2 [CHR 0x0A] of
          (Some e, w3) \<Rightarrow> (Some e, w3)
        | (None, w3) \<Rightarrow>
        case (case Body f of None \<Rightarrow> (None, w3) | Some b \<Rightarrow> copy_body b w3) of
          (Some e, w4) \<Rightarrow> (Some e, w4)
        | (None, w4) \<Rightarrow> Write w4 [CHR 0x00])"

section \<open>Decoding\<close>

text \<open>
  The decoder reads from the bytes that are still to come on the stream; the stream
  ends with an end-of-file condition.  \<open>ReadString\<close> and \<open>ReadBytes\<close> of
  \<open>bufio.Reader\<close> return the input up to and including the first delimiter, and fail
  when the input ends before one is found.
\<close>

fun read_until :: "char \<Rightarrow> string \<Rightarrow> (string \<times> string) option" where
  "read_until d [] = None"
| "read_until d (c # cs) =
     (if c = d then Some ([c], cs)
      else (case read_until d cs of None \<Rightarrow> None | Some (l, r) \<Rightarrow> Some (c # l, r)))"

lemma read_until_shorter: "read_until d inp = Some (l, r) \<Longrightarrow> length r < length inp"
  by (induction inp arbitrary: l) (auto split: if_splits option.splits)

function read_headers :: "string \<Rightarrow> headers \<Rightarrow> (error + headers) \<times> string" where
  "read_headers inp hdrs =
     (case read_until (CHR 0x0A) inp of
        None \<Rightarrow> (Inl ErrEOF, [])
      | Some (h, rest) \<Rightarrow>
          if h = [CHR 0x0A] then (Inr hdrs, rest)
          else (case Split (Trim h [CHR 0x0A]) (CHR '':'') of
                  [k, v] \<Rightarrow> read_headers rest (AList.update k v hdrs)
                | _ \<Rightarrow> (Inl ErrHeader, rest)))"
  by pat_completeness auto
termination
  by (relation "measure (\<lambda>(inp, hdrs). length inp)") (auto dest: read_until_shorter)

declare read_headers.simps [simp del]

definition NewReader :: "string \<Rightarrow> reader" where
  "NewReader b = \<lparr>contents = b, read_fails = False, closer = None, sized = True\<rparr>"

text \<open>
  The body before the terminator is looked for: one zero byte to start with, or, with a
  \<open>content-length\<close> header, as many bytes as it says (fewer when the input ends).
\<close>

definition read_body :: "headers \<Rightarrow> string \<Rightarrow> error + string \<times> string" where
  "read_body hdrs inp =
     (case map_of hdrs ''content-length'' of
        None \<Rightarrow> Inr ([CHR 0x00], inp)
      | Some len \<Rightarrow>
          (case Atoi len of
             Inl e \<Rightarrow> Inl e
           | Inr n \<Rightarrow> Inr (take (nat n) inp, drop (nat n) inp)))"

definition Decode :: "string \<Rightarrow> frame \<Rightarrow> (error option \<times> frame) \<times> string" where
  "Decode inp f =
     (case read_until (CHR 0x0A) inp of
        None \<Rightarrow> ((Some ErrEOF, f), [])
      | Some (c, rest) \<Rightarrow>
          if c = [CHR 0x0A] then ((None, f\<lparr>Command := ''HEARTBEAT''\<rparr>), rest)
          else
            case read_headers rest [] of
              (Inl e, rest1) \<Rightarrow> ((Some e, f), rest1)
            | (Inr hdrs, rest1) \<Rightarrow>
            case read_body hdrs rest1 of
              Inl e \<Rightarrow> ((Some e, f), rest1)
            | Inr (body, rest2) \<Rightarrow>
            case read_until (CHR 0x00) rest2 of
              None \<Rightarrow> ((Some ErrEOF, f), [])
            | Some (b, rest3) \<Rightarrow>
                ((None, f\<lparr>Command := Trim c [CHR 0x0D, CHR 0x0A],
                          Headers := hdrs,
                          Body := Some (NopCloser (NewReader
                                    (if b = [CHR 0x00] then body else body @ b)))\<rparr>),
                 rest3))"

text \<open>
  The bytes of the header lines that \<open>Encode\<close> writes, and the frames whose command
  and headers the line format can carry: the decoder splits a header line at its
  colons and accepts exactly two parts, and it trims carriage returns and newlines from
  both ends of the command line.
\<close>

definition header_lines :: "headers \<Rightarrow> string" where
  "header_lines hs = concat (map (\<lambda>(k, v). k @ '':'' @ v @ [CHR 0x0A]) hs)"

definition wire_command :: "string \<Rightarrow> bool" where
  "wire_command c =
     (c \<noteq> [] \<and> c \<noteq> ''HEARTBEAT'' \<and> CHR 0x0A \<notin> set c \<and> hd c \<noteq> CHR 0x0D \<and> last c \<noteq> CHR 0x0D)"

definition wire_header :: "string \<times> string \<Rightarrow> bool" where
  "wire_header h =
     (case h of (k, v) \<Rightarrow>
        CHR '':'' \<notin> set k \<and> CHR 0x0A \<notin> set k \<and> CHR '':'' \<notin> set v \<and> CHR 0x0A \<notin> set v)"

section \<open>Transport\<close>

text \<open>
  A network connection: what has been written to it, what is still to be read from it,
  and whether it is open.  Closing it makes every later write and read fail.  The
  encoder and the decoder of a \<open>Transport\<close> both wrap its connection, so a transport is
  its connection.  Read deadlines are not part of the model: the end of the input
  stands for any failure of a read.
\<close>

record conn =
  wr :: writer
  rd :: string
  is_open :: bool

type_synonym Transport = conn

definition conn_Close :: "conn \<Rightarrow> conn" where
  "conn_Close c = c\<lparr>wr := (wr c)\<lparr>quota := Some 0\<rparr>, rd := [], is_open := False\<rparr>"

definition conn_Encode :: "conn \<Rightarrow> frame \<Rightarrow> error option \<times> conn" where
  "conn_Encode c f = (case Encode (wr c) f of (e, w) \<Rightarrow> (e, c\<lparr>wr := w\<rparr>))"

definition conn_Decode :: "conn \<Rightarrow> frame \<Rightarrow> (error option \<times> frame) \<times> conn" where
  "conn_Decode c f = (case Decode (rd c) f of (r, inp) \<Rightarrow> (r, c\<lparr>rd := inp\<rparr>))"

definition with_receipt :: "string option \<Rightarrow> frame \<Rightarrow> frame" where
  "with_receipt receipt f = (case receipt of None \<Rightarrow> f | Some r \<Rightarrow> set_header ''receipt'' r f)"

definition Transport_Disconnect :: "Transport \<Rightarrow> string \<Rightarrow> error option \<times> Transport" where
  "Transport_Disconnect t receipt =
     conn_Encode t (set_header ''receipt'' receipt (NewFrame ''DISCONNECT'' None))"

definition Transport_Heartbeat :: "Transport \<Rightarrow> error option \<times> Transport" where
  "Transport_Heartbeat t = conn_Encode t (NewFrame ''HEARTBEAT'' None)"

text \<open>The frame that \<open>Transport.Send\<close> hands to the encoder.\<close>

definition Send_frame ::
  "string \<Rightarrow> headers option \<Rightarrow> string \<Rightarrow> reader option \<Rightarrow> string option \<Rightarrow> error + frame" where
  "Send_frame dest hdrs bodyType body receipt =
     (case makeSendFrame dest hdrs bodyType body of
        Inl e \<Rightarrow> Inl e
      | Inr f \<Rightarrow> Inr (with_receipt receipt f))"

definition Transport_Send ::
  "Transport \<Rightarrow> string \<Rightarrow> headers option \<Rightarrow> string \<Rightarrow> reader option \<Rightarrow> string option
     \<Rightarrow> error option \<times> Transport" where
  "Transport_Send t dest hdrs bodyType body receipt =
     (case Send_frame dest hdrs bodyType body receipt of
        Inl e \<Rightarrow> (Some e, t)
      | Inr f \<Rightarrow> conn_Encode t f)"

definition Transport_Ack :: "Transport \<Rightarrow> string \<Rightarrow> string option \<Rightarrow> error option \<times> Transport" where
  "Transport_Ack t ident receipt =
     conn_Encode t (with_receipt receipt (set_header ''id'' ident (NewFrame ''ACK'' None)))"

definition Transport_Nack :: "Transport \<Rightarrow> string \<Rightarrow> string option \<Rightarrow> error option \<times> Transport" where
  "Transport_Nack t ident receipt =
     conn_Encode t (with_receipt receipt (set_header ''id'' ident (NewFrame ''NACK'' None)))"

definition Transport_TxBegin :: "Transport \<Rightarrow> string \<Rightarrow> string option \<Rightarrow> error option \<times> Transport" where
  "Transport_TxBegin t tid receipt =
     conn_Encode t (with_receipt receipt (set_header ''transaction'' tid (NewFrame ''BEGIN'' None)))"

definition Transport_TxCommit :: "Transport \<Rightarrow> string \<Rightarrow> string option \<Rightarrow> error option \<times> Transport" where
  "Transport_TxCommit t tid receipt =
     conn_Encode t (with_receipt receipt (set_header ''transaction'' tid (NewFrame ''COMMIT'' None)))"

definition Transport_TxAbort :: "Transport \<Rightarrow> string \<Rightarrow> string option \<Rightarrow> error option \<times> Transport" where
  "Transport_TxAbort t tid receipt =
     conn_Encode t (with_receipt receipt (set_header ''transaction'' tid (NewFrame ''ABORT'' None)))"

definition Transport_TxSend ::
  "Transport \<Rightarrow> string \<Rightarrow> string \<Rightarrow> headers option \<Rightarrow> string \<Rightarrow> reader option
     \<Rightarrow> error option \<times> Transport" where
  "Transport_TxSend t tid dest hdrs bodyType body =
     (case makeSendFrame dest hdrs bodyType body of
        Inl e \<Rightarrow> (Some e, t)
      | Inr f \<Rightarrow> conn_Encode t (set_header ''transaction'' tid f))"

definition Transport_TxAck :: "Transport \<Rightarrow> string \<Rightarrow> string \<Rightarrow> error option \<times> Transport" where
  "Transport_TxAck t tid ident =
     conn_Encode t (set_header ''transaction'' tid (set_header ''id'' ident (NewFrame ''ACK'' None)))"

definition Transport_TxNack :: "Transport \<Rightarrow> string \<Rightarrow> string \<Rightarrow> error option \<times> Transport" where
  "Transport_TxNack t tid ident =
     conn_Encode t (set_header ''transaction'' tid (set_header ''id'' ident (NewFrame ''NACK'' None)))"

definition emptyFrame :: frame where
  "emptyFrame = \<lparr>Command = [], Headers = [], Body = None\<rparr>"

definition Transport_Recv :: "Transport \<Rightarrow> (error + frame) \<times> Transport" where
  "Transport_Recv t =
     (case conn_Decode t emptyFrame of
        ((Some e, f), t1) \<Rightarrow> (Inl e, t1)
      | ((None, f), t1) \<Rightarrow> (Inr f, t1))"

section \<open>Receipts\<close>

text \<open>
  The registry of pending receipts.  A channel made by \<open>Mark\<close> is a number; it is
  closed once it is in \<open>closed_chans\<close>.  \<open>closed\<close> tells whether the registry-wide
  channel of that name has been closed.
\<close>

record receipts =
  closed :: bool
  orders :: "(string \<times> nat) list"
  closed_chans :: "nat list"
  next_chan :: nat

definition newReceipts :: receipts where
  "newReceipts = \<lparr>closed = False, orders = [], closed_chans = [], next_chan = 0\<rparr>"

definition Mark :: "receipts \<Rightarrow> string \<Rightarrow> nat \<times> receipts" where
  "Mark r ident =
     (let ch = next_chan r
      in (ch, r\<lparr>orders := AList.update ident ch (orders r), next_chan := Suc ch\<rparr>))"

definition Clear :: "receipts \<Rightarrow> string \<Rightarrow> receipts" where
  "Clear r ident =
     (case map_of (orders r) ident of
        None \<Rightarrow> r
      | Some ch \<Rightarrow> r\<lparr>closed_chans := ch # closed_chans r, orders := AList.delete ident (orders r)\<rparr>)"

text \<open>
  The \<open>select\<close> of \<open>doWithReceipt\<close> waits for the receipt's channel \<open>ch\<close> and for the
  registry's \<open>closed\<close> channel.  \<open>select_ready\<close> lists the cases that can fire in a
  state of the registry; with none, the caller stays blocked.
\<close>

datatype branch = ReceiptArrived | ConnClosed

definition select_ready :: "receipts \<Rightarrow> nat \<Rightarrow> branch list" where
  "select_ready r ch =
     (if ch \<in> set (closed_chans r) then [ReceiptArrived] else []) @
     (if closed r then [ConnClosed] else [])"

text \<open>What a pending \<open>doWithReceipt\<close> does once a case of its \<open>select\<close> fires.\<close>

definition doWithReceipt_resume :: "receipts \<Rightarrow> string \<Rightarrow> branch \<Rightarrow> error option \<times> receipts" where
  "doWithReceipt_resume r ident b =
     (case b of
        ReceiptArrived \<Rightarrow> (None, r)
      | ConnClosed \<Rightarrow> (Some ErrChannelClosed, Clear r ident))"

text \<open>
  A call seen from its caller: it returns an error or none, or it never returns.  What
  the other activities do while the caller waits is an input: the identifier that
  \<open>newUUID\<close> delivers (none when it fails) and the case of the \<open>select\<close> that fires
  (none when the caller waits for ever).  A receipt arrives when the reader has cleared
  the identifier; the connection is closed when the reader has left its loop.
\<close>

datatype outcome = Returns "error option" | Blocks

record env =
  uuid :: "string option"
  wake :: "branch option"

definition doWithReceipt ::
  "env \<Rightarrow> (string \<Rightarrow> Transport \<Rightarrow> error option \<times> Transport) \<Rightarrow> receipts \<times> Transport
     \<Rightarrow> outcome \<times> receipts \<times> Transport" where
  "doWithReceipt e f s =
     (case s of (r, t) \<Rightarrow>
      case uuid e of
        None \<Rightarrow> (Returns (Some ErrUUID), r, t)
      | Some ident \<Rightarrow>
          (case Mark r ident of (ch, r1) \<Rightarrow>
           case f ident t of
             (Some err, t1) \<Rightarrow> (Returns (Some err), Clear r1 ident, t1)
           | (None, t1) \<Rightarrow>
               (case wake e of
                  None \<Rightarrow> (Blocks, r1, t1)
                | Some ReceiptArrived \<Rightarrow>
                    (case doWithReceipt_resume (Clear r1 ident) ident ReceiptArrived of
                       (res, r2) \<Rightarrow> (Returns res, r2, t1))
                | Some ConnClosed \<Rightarrow>
                    (case doWithReceipt_resume (r1\<lparr>closed := True\<rparr>) ident ConnClosed of
                       (res, r2) \<Rightarrow> (Returns res, r2, t1)))))"

section \<open>Transactions\<close>

text \<open>
  A \<open>Tx\<close> points to the registry and the transport of its client; the operations take
  and return the three together.  The deferred \<open>t.done = true\<close> of \<open>Commit\<close> and
  \<open>Abort\<close> runs when the call returns.  The field \<open>done\<close> is \<open>is_done\<close> here.
\<close>

record Tx =
  tid :: string
  is_done :: bool

type_synonym session = "Tx \<times> receipts \<times> Transport"

definition Tx_Commit :: "env \<Rightarrow> bool \<Rightarrow> session \<Rightarrow> outcome \<times> session" where
  "Tx_Commit e receipt s =
     (case s of (tx, r, t) \<Rightarrow>
      if is_done tx then (Returns (Some ErrTxDone), s)
      else
        (case (if receipt
               then doWithReceipt e (\<lambda>rid t. Transport_TxCommit t (tid tx) (Some rid)) (r, t)
               else (case Transport_TxCommit t (tid tx) None of (res, t1) \<Rightarrow> (Returns res, r, t1)))
         of (Blocks, r1, t1) \<Rightarrow> (Blocks, tx, r1, t1)
          | (Returns res, r1, t1) \<Rightarrow> (Returns res, tx\<lparr>is_done := True\<rparr>, r1, t1)))"

definition Tx_Abort :: "env \<Rightarrow> bool \<Rightarrow> session \<Rightarrow> outcome \<times> session" where
  "Tx_Abort e receipt s =
     (case s of (tx, r, t) \<Rightarrow>
      if is_done tx then (Returns None, s)
      else
        (case (if receipt
               then doWithReceipt e (\<lambda>rid t. Transport_TxAbort t (tid tx) (Some rid)) (r, t)
               else (case Transport_TxAbort t (tid tx) None of (res, t1) \<Rightarrow> (Returns res, r, t1)))
         of (Blocks, r1, t1) \<Rightarrow> (Blocks, tx, r1, t1)
          | (Returns res, r1, t1) \<Rightarrow> (Returns res, tx\<lparr>is_done := True\<rparr>, r1, t1)))"

definition Tx_Send ::
  "string \<Rightarrow> headers option \<Rightarrow> string \<Rightarrow> reader option \<Rightarrow> session \<Rightarrow> outcome \<times> session" where
  "Tx_Send dest hdrs bodyType body s =
     (case s of (tx, r, t) \<Rightarrow>
      if is_done tx then (Returns (Some ErrTxDone), s)
      else (case Transport_TxSend t (tid tx) dest hdrs bodyType body of
              (res, t1) \<Rightarrow> (Returns res, tx, r, t1)))"

definition Tx_Ack :: "string \<Rightarrow> session \<Rightarrow> outcome \<times> session" where
  "Tx_Ack ident s =
     (case s of (tx, r, t) \<Rightarrow>
      if is_done tx then (Returns (Some ErrTxDone), s)
      else (case Transport_TxAck t (tid tx) ident of (res, t1) \<Rightarrow> (Returns res, tx, r, t1)))"

definition Tx_Nack :: "string \<Rightarrow> session \<Rightarrow> outcome \<times> session" where
  "Tx_Nack ident s =
     (case s of (tx, r, t) \<Rightarrow>
      if is_done tx then (Returns (Some ErrTxDone), s)
      else (case Transport_TxNack t (tid tx) ident of (res, t1) \<Rightarrow> (Returns res, tx, r, t1)))"

section \<open>Heartbeat negotiation\<close>

text \<open>
  A \<open>time.Duration\<close> is a signed 64-bit count of nanoseconds; multiplication wraps
  around and comparison is signed.
\<close>

type_synonym Duration = "64 word"

record Heartbeat =
  Send :: Duration
  Recv :: Duration

definition Millisecond :: Duration where
  "Millisecond = 1000000"

definition maxDuration :: "Duration \<Rightarrow> Duration \<Rightarrow> Duration" where
  "maxDuration a b = (if sint b < sint a then a else b)"

text \<open>
  \<open>fmt.Sscanf(v, "%d,%d", &s, &r)\<close>, whose error the client drops: an operand that is
  not scanned keeps its value 0.  The verb \<open>%d\<close> skips blanks (a newline is an
  error), takes an optional sign and a run of digits and underscores, and converts it
  like \<open>strconv.ParseInt\<close> in base 10, which refuses an underscore and a value
  outside the 64-bit range.
\<close>

definition is_blank :: "char \<Rightarrow> bool" where
  "is_blank c = (c \<in> set [CHR 0x09, CHR 0x0B, CHR 0x0C, CHR 0x0D, CHR 0x20])"

fun SkipSpace :: "string \<Rightarrow> string option" where
  "SkipSpace [] = Some []"
| "SkipSpace (c # cs) =
     (if c = CHR 0x0A then None
      else if is_blank c then SkipSpace cs
      else Some (c # cs))"

definition scanInt :: "string \<Rightarrow> (int \<times> string) option" where
  "scanInt inp =
     (case SkipSpace inp of
        None \<Rightarrow> None
      | Some [] \<Rightarrow> None
      | Some (c # cs) \<Rightarrow>
          (let (sign, s2) = (if c = CHR ''+'' \<or> c = CHR ''-'' then ([c], cs) else ([], c # cs));
               tok = takeWhile (\<lambda>x. is_digit x \<or> x = CHR ''_'') s2;
               rest = dropWhile (\<lambda>x. is_digit x \<or> x = CHR ''_'') s2
           in if tok = [] then None
              else (case Atoi (sign @ tok) of Inl e \<Rightarrow> None | Inr v \<Rightarrow> Some (v, rest))))"

definition Sscanf_d_d :: "string \<Rightarrow> int \<times> int" where
  "Sscanf_d_d v =
     (case scanInt v of
        None \<Rightarrow> (0, 0)
      | Some (s, rest) \<Rightarrow>
          (case rest of
             [] \<Rightarrow> (s, 0)
           | c # rest1 \<Rightarrow>
               if c = CHR '','' then (case scanInt rest1 of None \<Rightarrow> (s, 0) | Some (r, x) \<Rightarrow> (s, r))
               else (s, 0)))"

text \<open>
  The heartbeat that \<open>Connect\<close> computes from the client's configuration and the
  \<open>heart-beat\<close> header of the server's response (none when the header is absent).
\<close>

definition negotiate :: "Heartbeat \<Rightarrow> string option \<Rightarrow> Heartbeat" where
  "negotiate conf_hb hv =
     (let hb = \<lparr>Send = 0, Recv = 0\<rparr>
      in case hv of
           None \<Rightarrow> hb
         | Some v \<Rightarrow>
             (case Sscanf_d_d v of (s, r) \<Rightarrow>
                let send = Millisecond * word_of_int s;
                    recv = Millisecond * word_of_int r;
                    hb1 = (if Send conf_hb \<noteq> 0 \<and> recv \<noteq> 0
                           then hb\<lparr>Send := maxDuration (Send conf_hb) recv\<rparr> else hb);
                    hb2 = (if Recv conf_hb \<noteq> 0 \<and> send \<noteq> 0
                           then hb1\<lparr>Recv := maxDuration (Recv conf_hb) send\<rparr> else hb1)
                in hb2))"

section \<open>Connecting\<close>

record Config =
  Host :: string
  Login :: string
  Passcode :: string
  Heartbeat :: Heartbeat

definition DefaultConfig :: Config where
  "DefaultConfig = \<lparr>Host = ''/'', Login = [], Passcode = [], Heartbeat = \<lparr>Send = 0, Recv = 0\<rparr>\<rparr>"

definition Version :: string where
  "Version = ''1.2''"

text \<open>
  Of a \<open>TransportConfig\<close> the model keeps whether a TLS configuration is present.
  What the network does is an input: the result of \<open>tr.Dial\<close>, and the first value
  that arrives on the channel \<open>errc\<close> of the TLS handshake (the handshake's own result
  or the error of the timer).
\<close>

record TransportConfig =
  TLSConfig :: bool

definition DefaultTransportConfig :: TransportConfig where
  "DefaultTransportConfig = \<lparr>TLSConfig = False\<rparr>"

record network =
  dial :: "error + conn"
  handshake :: "error option"

record Client =
  transport :: Transport
  receipts :: receipts
  MsgCh :: "frame list"
  MsgCh_closed :: bool
  ErrCh :: "frame list"

text \<open>
  \<open>Heartbeat.toString\<close> goes through floating point; it is the parameter \<open>toString\<close>
  of the model.
\<close>

definition connect_request :: "(Heartbeat \<Rightarrow> string) \<Rightarrow> Config \<Rightarrow> frame" where
  "connect_request toString conf =
     (let req = set_header ''accept-version'' Version (NewFrame ''CONNECT'' None);
          req1 = (if Host conf \<noteq> [] then set_header ''host'' (Host conf) req
                  else set_header ''host'' ''/'' req);
          req2 = (if Login conf \<noteq> [] then set_header ''login'' (Login conf) req1 else req1);
          req3 = (if Passcode conf \<noteq> [] then set_header ''passcode'' (Passcode conf) req2 else req2)
      in set_header ''heart-beat'' (toString (Heartbeat conf)) req3)"

text \<open>
  \<open>Connect\<close> returns an error or the client together with the heartbeat its two
  activities are started with; the second component is the stream as \<open>Connect\<close>
  leaves it (none when dialing failed).
\<close>

definition Connect ::
  "(Heartbeat \<Rightarrow> string) \<Rightarrow> network \<Rightarrow> Config option \<Rightarrow> TransportConfig option
     \<Rightarrow> (error + Client \<times> Heartbeat) \<times> conn option" where
  "Connect toString net conf0 tr0 =
     (let conf = (case conf0 of None \<Rightarrow> DefaultConfig | Some c \<Rightarrow> c);
          tr = (case tr0 of None \<Rightarrow> DefaultTransportConfig | Some x \<Rightarrow> x)
      in case dial net of
           Inl e \<Rightarrow> (Inl e, None)
         | Inr c0 \<Rightarrow>
         case (if TLSConfig tr then handshake net else None) of
           Some e \<Rightarrow> (Inl e, Some (conn_Close c0))
         | None \<Rightarrow>
         case conn_Encode c0 (connect_request toString conf) of
           (Some e, c1) \<Rightarrow> (Inl e, Some c1)
         | (None, c1) \<Rightarrow>
         case conn_Decode c1 emptyFrame of
           ((Some e, f), c2) \<Rightarrow> (Inl e, Some (conn_Close c2))
         | ((None, resp), c2) \<Rightarrow>
             if Command resp \<noteq> ''CONNECTED'' then
               (case map_of (Headers resp) ''content-type'' of
                  None \<Rightarrow> (Inl ErrNoContentType, Some (conn_Close c2))
                | Some ct \<Rightarrow>
                    if ct \<noteq> ''text/plain'' then (Inl (ErrBadContentType ct), Some (conn_Close c2))
                    else (case Body resp of
                            None \<Rightarrow> (Inl ErrNilBody, Some (conn_Close c2))
                          | Some b \<Rightarrow>
                              if read_fails b then (Inl ErrRead, Some (conn_Close c2))
                              else (Inl (ErrServer (contents b)), Some (conn_Close c2))))
             else
               (Inr (\<lparr>transport = c2, receipts = newReceipts, MsgCh = [],
                      MsgCh_closed = False, ErrCh = []\<rparr>,
                     negotiate (Heartbeat conf) (map_of (Headers resp) ''heart-beat'')),
                Some c2))"

section \<open>The reader\<close>

text \<open>
  The loop of \<open>Client.read\<close>.  It leaves the loop and closes the two channels, or it
  panics, or it stays blocked in the send of a message on \<open>MsgCh\<close>, which has no
  buffer: \<open>takers\<close> is the number of messages that the consumers of \<open>MsgCh\<close> receive.
  \<open>ErrCh\<close> has room for the one frame the loop ever sends on it.
\<close>

datatype read_outcome = Exits Client | Panics string Client | BlocksOnMsgCh Client

definition read_exit :: "Client \<Rightarrow> read_outcome" where
  "read_exit c = Exits (c\<lparr>receipts := (receipts c)\<lparr>closed := True\<rparr>, MsgCh_closed := True\<rparr>)"

lemma read_headers_shorter: "read_headers inp hdrs = (res, r) \<Longrightarrow> length r \<le> length inp"
proof (induction inp hdrs rule: read_headers.induct)
  case (1 inp hdrs)
  show ?case
  proof (cases "read_until (CHR 0x0A) inp")
    case None
    with "1.prems" show ?thesis by (simp add: read_headers.simps [of inp])
  next
    case (Some p)
    obtain h rest where p: "p = (h, rest)" by (cases p)
    have less: "length rest < length inp"
      using Some p by (auto dest: read_until_shorter)
    show ?thesis
    proof (cases "h = [CHR 0x0A]")
      case True
      with "1.prems" Some p less show ?thesis by (simp add: read_headers.simps [of inp])
    next
      case False
      show ?thesis
      proof (cases "\<exists>k v. Split (Trim h [CHR 0x0A]) (CHR '':'') = [k, v]")
        case True
        then obtain k v where kv: "Split (Trim h [CHR 0x0A]) (CHR '':'') = [k, v]" by blast
        have "read_headers rest (AList.update k v hdrs) = (res, r)"
          using "1.prems" Some p False kv by (simp add: read_headers.simps [of inp])
        then have "length r \<le> length rest"
          using "1.IH" [OF Some p [symmetric] False kv] by simp
        with less show ?thesis by simp
      next
        case F2: False
        then have "(Inl ErrHeader, rest) = (res, r)"
          using "1.prems" Some p False
          by (simp add: read_headers.simps [of inp] split: list.splits)
        with less show ?thesis by simp
      qed
    qed
  qed
qed

lemma read_body_shorter: "read_body hdrs inp = Inr (body, r) \<Longrightarrow> length r \<le> length inp"
  unfolding read_body_def by (auto split: option.splits sum.splits)

lemma Decode_shorter: "Decode inp f = ((None, g), r) \<Longrightarrow> length r < length inp"
  unfolding Decode_def
  by (fastforce split: option.splits if_splits sum.splits prod.splits
           dest: read_until_shorter read_headers_shorter read_body_shorter)

lemma Transport_Recv_shorter: "Transport_Recv t = (Inr f, t1) \<Longrightarrow> length (rd t1) < length (rd t)"
  unfolding Transport_Recv_def conn_Decode_def
  by (auto split: prod.splits option.splits dest: Decode_shorter)

function Client_read :: "nat \<Rightarrow> Client \<Rightarrow> read_outcome" where
  "Client_read takers c =
     (case Transport_Recv (transport c) of
        (Inl e, t1) \<Rightarrow> read_exit (c\<lparr>transport := t1\<rparr>)
      | (Inr f, t1) \<Rightarrow>
          if Command f = ''HEARTBEAT'' then Client_read takers (c\<lparr>transport := t1\<rparr>)
          else if Command f = ''RECEIPT'' then
            (case map_of (Headers f) ''receipt-id'' of
               None \<Rightarrow> Panics ''stomp: received a receipt frame without an ID'' (c\<lparr>transport := t1\<rparr>)
             | Some ident \<Rightarrow>
                 Client_read takers (c\<lparr>transport := t1, receipts := Clear (receipts c) ident\<rparr>))
          else if Command f = ''MESSAGE'' then
            (case takers of
               0 \<Rightarrow> BlocksOnMsgCh (c\<lparr>transport := t1\<rparr>)
             | Suc k \<Rightarrow> Client_read k (c\<lparr>transport := t1, MsgCh := MsgCh c @ [f]\<rparr>))
          else if Command f = ''ERROR'' then
            read_exit (c\<lparr>transport := t1, ErrCh := ErrCh c @ [f]\<rparr>)
          else Panics (''stomp: received unkown frame '' @ Command f) (c\<lparr>transport := t1\<rparr>))"
  by pat_completeness auto
termination
  by (relation "measure (\<lambda>(takers, c). length (rd (transport c)))")
     (auto dest: Transport_Recv_shorter [OF sym])

declare Client_read.simps [simp del]

text \<open>
  \<open>Client.Disconnect\<close> waits for the receipt of its DISCONNECT frame with a \<open>select\<close>
  of its own, which returns no error in both cases, and closes the stream when it
  returns.
\<close>

definition Client_Disconnect :: "env \<Rightarrow> Client \<Rightarrow> outcome \<times> Client" where
  "Client_Disconnect e c =
     (case uuid e of
        None \<Rightarrow> (Returns (Some ErrUUID), c\<lparr>transport := conn_Close (transport c)\<rparr>)
      | Some ident \<Rightarrow>
          (case Mark (receipts c) ident of (ch, r1) \<Rightarrow>
           case Transport_Disconnect (transport c) ident of
             (Some err, t1) \<Rightarrow>
               (Returns (Some err), c\<lparr>transport := conn_Close t1, receipts := Clear r1 ident\<rparr>)
           | (None, t1) \<Rightarrow>
               (case wake e of
                  None \<Rightarrow> (Blocks, c\<lparr>transport := t1, receipts := r1\<rparr>)
                | Some ReceiptArrived \<Rightarrow>
                    (Returns None, c\<lparr>transport := conn_Close t1, receipts := Clear r1 ident\<rparr>)
                | Some ConnClosed \<Rightarrow>
                    (Returns None,
                     c\<lparr>transport := conn_Close t1, receipts := r1\<lparr>closed := True\<rparr>\<rparr>))))"

section \<open>Properties of frame construction\<close>

text \<open>
  C10.  For every command string and every body argument, also the absent one,
  \<open>NewFrame\<close> gives a frame whose command is the upper-cased string and whose body is
  present: an absent body becomes an empty reader, and the frame built from no body is
  the frame built from an empty buffer.
\<close>

theorem NewFrame_body_never_absent:
  "Command (NewFrame cmd body) = ToUpper cmd \<and>
   Body (NewFrame cmd body) \<noteq> None \<and>
   Body (NewFrame cmd None) = Some (NopCloser emptyBuffer) \<and>
   contents (NopCloser emptyBuffer) = [] \<and>
   NewFrame cmd None = NewFrame cmd (Some emptyBuffer)"
  by (simp add: NewFrame_def Let_def emptyBuffer_def NopCloser_def)

theorem NewFrame_body_never_absent_witness:
  "Command (NewFrame ''send'' None) = ''SEND'' \<and>
   Body (NewFrame ''send'' None) = Some (NopCloser emptyBuffer)"
proof -
  have up: "ToUpper ''send'' = ''SEND''" by code_simp
  note nf = NewFrame_body_never_absent [of "''send''" None]
  from nf [THEN conjunct1] nf [THEN conjunct2, THEN conjunct2, THEN conjunct1] up
  show ?thesis by simp
qed

section \<open>Properties of transactions\<close>

text \<open>
  C7.  On a transaction whose done flag is set, \<open>Send\<close>, \<open>Ack\<close>, \<open>Nack\<close> and
  \<open>Commit\<close> return \<open>ErrTxDone\<close> and \<open>Abort\<close> returns no error, all of them leaving
  the transaction, the registry and the transport as they are.  A \<open>Commit\<close> or an
  \<open>Abort\<close> on a transaction that is not done sets the flag when it returns, whatever
  it returns, so that a second \<open>Commit\<close> returns \<open>ErrTxDone\<close>; and a \<open>Commit\<close>
  returns whenever it does not wait for ever for a receipt.
\<close>

theorem Tx_done_is_terminal:
  "(is_done tx \<longrightarrow>
      Tx_Send dest hdrs bodyType body (tx, r, t) = (Returns (Some ErrTxDone), (tx, r, t)) \<and>
      Tx_Ack ident (tx, r, t) = (Returns (Some ErrTxDone), (tx, r, t)) \<and>
      Tx_Nack ident (tx, r, t) = (Returns (Some ErrTxDone), (tx, r, t)) \<and>
      Tx_Commit e receipt (tx, r, t) = (Returns (Some ErrTxDone), (tx, r, t)) \<and>
      Tx_Abort e receipt (tx, r, t) = (Returns None, (tx, r, t))) \<and>
   (\<not> is_done tx \<and> Tx_Commit e receipt (tx, r, t) = (Returns res, s1) \<longrightarrow>
      is_done (fst s1) \<and> Tx_Commit e2 receipt2 s1 = (Returns (Some ErrTxDone), s1)) \<and>
   (\<not> is_done tx \<and> Tx_Abort e receipt (tx, r, t) = (Returns res, s1) \<longrightarrow>
      is_done (fst s1) \<and> Tx_Commit e2 receipt2 s1 = (Returns (Some ErrTxDone), s1)) \<and>
   (\<not> receipt \<or> wake e \<noteq> None \<longrightarrow>
      (\<exists>res1 s2. Tx_Commit e receipt (tx, r, t) = (Returns res1, s2) \<and> is_done (fst s2)))"
proof (intro conjI impI)
  assume "\<not> receipt \<or> wake e \<noteq> None"
  then show "\<exists>res1 s2. Tx_Commit e receipt (tx, r, t) = (Returns res1, s2) \<and> is_done (fst s2)"
    by (auto simp: Tx_Commit_def doWithReceipt_def doWithReceipt_resume_def
             split: prod.splits option.splits outcome.splits branch.splits)
qed (auto simp: Tx_Send_def Tx_Ack_def Tx_Nack_def Tx_Commit_def Tx_Abort_def
          split: prod.splits outcome.splits if_splits)

text \<open>A commit that fails on a closed connection, and its retry.\<close>

theorem Tx_done_is_terminal_witness:
  "Tx_Commit \<lparr>uuid = None, wake = None\<rparr> False
     (\<lparr>tid = ''t1'', is_done = False\<rparr>, newReceipts,
      \<lparr>wr = \<lparr>out = [], quota = Some 0\<rparr>, rd = [], is_open = False\<rparr>)
   = (Returns (Some ErrWrite),
      (\<lparr>tid = ''t1'', is_done = True\<rparr>, newReceipts,
       \<lparr>wr = \<lparr>out = [], quota = Some 0\<rparr>, rd = [], is_open = False\<rparr>)) \<and>
   Tx_Commit \<lparr>uuid = None, wake = None\<rparr> False
     (\<lparr>tid = ''t1'', is_done = True\<rparr>, newReceipts,
      \<lparr>wr = \<lparr>out = [], quota = Some 0\<rparr>, rd = [], is_open = False\<rparr>)
   = (Returns (Some ErrTxDone),
      (\<lparr>tid = ''t1'', is_done = True\<rparr>, newReceipts,
       \<lparr>wr = \<lparr>out = [], quota = Some 0\<rparr>, rd = [], is_open = False\<rparr>))"
proof -
  let ?t = "\<lparr>wr = \<lparr>out = [], quota = Some 0\<rparr>, rd = [], is_open = False\<rparr>"
  let ?e = "\<lparr>uuid = None, wake = None\<rparr>"
  have first: "Tx_Commit ?e False (\<lparr>tid = ''t1'', is_done = False\<rparr>, newReceipts, ?t)
      = (Returns (Some ErrWrite), (\<lparr>tid = ''t1'', is_done = True\<rparr>, newReceipts, ?t))"
    by code_simp
  show ?thesis
    using first
      Tx_done_is_terminal [of "\<lparr>tid = ''t1'', is_done = False\<rparr>" _ _ _ _ newReceipts ?t _ ?e False
        "Some ErrWrite" "(\<lparr>tid = ''t1'', is_done = True\<rparr>, newReceipts, ?t)" ?e False]
    by simp
qed

section \<open>Properties of SEND frames\<close>

lemma Headers_set_header: "map_of (Headers (set_header k v f)) = (map_of (Headers f))(k \<mapsto> v)"
  by (simp add: set_header_def update_conv')

lemma Body_set_header: "Body (set_header k v f) = Body f"
  by (simp add: set_header_def)

lemma Command_set_header: "Command (set_header k v f) = Command f"
  by (simp add: set_header_def)

lemma Body_merge_headers: "Body (merge_headers hs f) = Body f"
  by (induction hs f rule: merge_headers.induct) (simp_all add: Let_def Body_set_header)

text \<open>
  What the loop over the caller's headers leaves under a name: a reserved name keeps
  what the frame had; any other name gets the value of the last caller entry that has
  this name once lower-cased, if there is one.
\<close>

lemma map_of_merge_headers:
  "map_of (Headers (merge_headers hs f)) k =
     (if k \<in> set forbidden then map_of (Headers f) k
      else (case map_of (rev (map (\<lambda>(n, v). (ToLower n, v)) hs)) k of
              None \<Rightarrow> map_of (Headers f) k
            | Some v \<Rightarrow> Some v))"
proof (induction hs f rule: merge_headers.induct)
  case (1 f)
  show ?case by simp
next
  case (2 n v rest f)
  show ?case
  proof (cases "ToLower n \<in> set forbidden")
    case True
    then show ?thesis
      using "2.IH" [OF refl]
      by (auto simp: Let_def map_add_def split: option.splits)
  next
    case False
    then show ?thesis
      using "2.IH" [OF refl]
      by (auto simp: Let_def map_add_def Headers_set_header split: option.splits)
  qed
qed

text \<open>The frame before the caller's headers are merged in.\<close>

lemma makeSendFrame_None:
  assumes "makeSendFrame dest None bodyType body = Inr f"
  shows "\<exists>b. Body f = Some b \<and>
             contents b = (case body of None \<Rightarrow> [] | Some r \<Rightarrow> contents r) \<and>
             Headers f = [(''destination'', dest), (''content-type'', bodyType),
                          (''content-length'', Itoa (int (length (contents b))))]"
  using assms
  by (cases body)
     (auto simp: makeSendFrame_def NewFrame_def set_header_def Let_def emptyBuffer_def
                 NopCloser_def split: if_splits)

lemma makeSendFrame_Some:
  "makeSendFrame dest (Some hs) bodyType body =
     (case makeSendFrame dest None bodyType body of
        Inl e \<Rightarrow> Inl e
      | Inr f \<Rightarrow> Inr (merge_headers hs f))"
  by (simp add: makeSendFrame_def Let_def split: sum.splits)


lemma makeSendFrame_split:
  assumes "makeSendFrame dest hdrs bodyType body = Inr f"
  obtains f0 where "makeSendFrame dest None bodyType body = Inr f0"
    and "f = (case hdrs of None \<Rightarrow> f0 | Some hs \<Rightarrow> merge_headers hs f0)"
  using assms by (cases hdrs) (auto simp: makeSendFrame_Some split: sum.splits)

lemma makeSendFrame_reserved:
  assumes "makeSendFrame dest hdrs bodyType body = Inr f" and "k \<in> set forbidden"
  shows "map_of (Headers f) k =
           map_of [(''destination'', dest), (''content-type'', bodyType),
                   (''content-length'',
                    Itoa (int (length (case body of None \<Rightarrow> [] | Some r \<Rightarrow> contents r))))] k"
proof -
  from assms(1) obtain f0 where f0: "makeSendFrame dest None bodyType body = Inr f0"
    and f: "f = (case hdrs of None \<Rightarrow> f0 | Some hs \<Rightarrow> merge_headers hs f0)"
    by (rule makeSendFrame_split)
  have eq: "map_of (Headers f) k = map_of (Headers f0) k"
    using f assms(2) by (cases hdrs) (simp_all add: map_of_merge_headers)
  from makeSendFrame_None [OF f0] obtain b where
    "Body f0 = Some b"
    "contents b = (case body of None \<Rightarrow> [] | Some r \<Rightarrow> contents r)"
    "Headers f0 = [(''destination'', dest), (''content-type'', bodyType),
                   (''content-length'', Itoa (int (length (contents b))))]"
    by (elim exE conjE)
  then show ?thesis by (simp only: eq)
qed

text \<open>
  C8.  In a SEND frame that \<open>makeSendFrame\<close> builds, the six reserved names carry what
  the builder puts there and nothing of the caller's: \<open>destination\<close> the destination,
  \<open>content-type\<close> the body type, \<open>content-length\<close> the decimal byte length of the
  body of the frame (the caller's bytes), and \<open>id\<close>, \<open>receipt\<close> and \<open>transaction\<close>
  are absent.  Every other name carries the caller's header of that name once
  lower-cased (the last one the loop visits, when several caller names differ in case
  only), and is absent when the caller has none.
\<close>

theorem makeSendFrame_reserved_headers:
  assumes "makeSendFrame dest hdrs bodyType body = Inr f"
  shows "(\<exists>b. Body f = Some b \<and>
              contents b = (case body of None \<Rightarrow> [] | Some r \<Rightarrow> contents r) \<and>
              map_of (Headers f) ''content-length'' = Some (Itoa (int (length (contents b))))) \<and>
         map_of (Headers f) ''destination'' = Some dest \<and>
         map_of (Headers f) ''content-type'' = Some bodyType \<and>
         map_of (Headers f) ''id'' = None \<and>
         map_of (Headers f) ''receipt'' = None \<and>
         map_of (Headers f) ''transaction'' = None \<and>
         (\<forall>k. k \<notin> set forbidden \<longrightarrow>
              map_of (Headers f) k =
                (case hdrs of
                   None \<Rightarrow> None
                 | Some hs \<Rightarrow> map_of (rev (map (\<lambda>(n, v). (ToLower n, v)) hs)) k))"
proof -
  from assms obtain f0 where f0: "makeSendFrame dest None bodyType body = Inr f0"
    and f: "f = (case hdrs of None \<Rightarrow> f0 | Some hs \<Rightarrow> merge_headers hs f0)"
    by (rule makeSendFrame_split)
  from makeSendFrame_None [OF f0] obtain b where
    b: "Body f0 = Some b" "contents b = (case body of None \<Rightarrow> [] | Some r \<Rightarrow> contents r)"
    and h0: "Headers f0 = [(''destination'', dest), (''content-type'', bodyType),
                          (''content-length'', Itoa (int (length (contents b))))]"
    by blast
  have body: "Body f = Body f0"
    using f by (cases hdrs) (simp_all add: Body_merge_headers)
  note reserved = makeSendFrame_reserved [OF assms]
  have other: "map_of (Headers f) k =
      (case hdrs of None \<Rightarrow> None
       | Some hs \<Rightarrow> map_of (rev (map (\<lambda>(n, v). (ToLower n, v)) hs)) k)"
    if "k \<notin> set forbidden" for k
  proof -
    from that have "k \<noteq> ''destination''" "k \<noteq> ''content-type''" "k \<noteq> ''content-length''"
      unfolding forbidden_def by auto
    then have "map_of (Headers f0) k = None"
      by (simp add: h0)
    then show ?thesis
      using f that by (cases hdrs) (auto simp: map_of_merge_headers split: option.splits)
  qed
  have in_forbidden:
    "''content-length'' \<in> set forbidden" "''destination'' \<in> set forbidden"
    "''content-type'' \<in> set forbidden" "''id'' \<in> set forbidden"
    "''receipt'' \<in> set forbidden" "''transaction'' \<in> set forbidden"
    by (simp_all add: forbidden_def)
  have c1: "map_of (Headers f) ''content-length'' = Some (Itoa (int (length (contents b))))"
    using reserved [OF in_forbidden(1)] b(2) by simp
  have c2: "map_of (Headers f) ''destination'' = Some dest"
    using reserved [OF in_forbidden(2)] by simp
  have c3: "map_of (Headers f) ''content-type'' = Some bodyType"
    using reserved [OF in_forbidden(3)] by simp
  have c4: "map_of (Headers f) ''id'' = None"
    using reserved [OF in_forbidden(4)] by simp
  have c5: "map_of (Headers f) ''receipt'' = None"
    using reserved [OF in_forbidden(5)] by simp
  have c6: "map_of (Headers f) ''transaction'' = None"
    using reserved [OF in_forbidden(6)] by simp
  from b body c1 have c0: "\<exists>b. Body f = Some b \<and>
              contents b = (case body of None \<Rightarrow> [] | Some r \<Rightarrow> contents r) \<and>
              map_of (Headers f) ''content-length'' = Some (Itoa (int (length (contents b))))"
    by simp
  from c0 c2 c3 c4 c5 c6 other show ?thesis by blast
qed

text \<open>
  A caller map with a \<open>Content-Length\<close> of its own and one free header, for the body
  \<open>abc\<close>.
\<close>

theorem makeSendFrame_reserved_headers_witness:
  "makeSendFrame ''/queue/a'' (Some [(''Content-Length'', ''99''), (''X-Trace'', ''7'')])
      ''text/plain'' (Some (NewReader ''abc''))
     = Inr \<lparr>Command = ''SEND'',
            Headers = [(''destination'', ''/queue/a''), (''content-type'', ''text/plain''),
                       (''content-length'', ''3''), (''x-trace'', ''7'')],
            Body = Some (NopCloser (NewReader ''abc''))\<rparr> \<and>
   map_of [(''destination'', ''/queue/a''), (''content-type'', ''text/plain''),
           (''content-length'', ''3''), (''x-trace'', ''7'')] ''content-length''
     = Some (Itoa (int (length ''abc'')))"
proof -
  let ?f = "\<lparr>Command = ''SEND'',
            Headers = [(''destination'', ''/queue/a''), (''content-type'', ''text/plain''),
                       (''content-length'', ''3''), (''x-trace'', ''7'')],
            Body = Some (NopCloser (NewReader ''abc''))\<rparr>"
  have ev: "makeSendFrame ''/queue/a'' (Some [(''Content-Length'', ''99''), (''X-Trace'', ''7'')])
      ''text/plain'' (Some (NewReader ''abc'')) = Inr ?f"
    by code_simp
  from makeSendFrame_reserved_headers [OF ev] ev show ?thesis
    by (simp add: NopCloser_def NewReader_def)
qed

text \<open>
  The receipt header of the frame that \<open>Transport.Send\<close> encodes is the receipt
  identifier of the caller, and absent without one; its content type is there whatever
  the body.
\<close>

lemma Send_frame_receipt:
  assumes "Send_frame dest hdrs bodyType body receipt = Inr f"
  shows "map_of (Headers f) ''receipt'' = receipt"
proof -
  from assms obtain g where g: "makeSendFrame dest hdrs bodyType body = Inr g"
    and f: "f = with_receipt receipt g"
    by (auto simp: Send_frame_def split: sum.splits)
  from makeSendFrame_reserved [OF g, of "''receipt''"] have "map_of (Headers g) ''receipt'' = None"
    by (simp add: forbidden_def)
  then show ?thesis
    using f by (cases receipt) (simp_all add: with_receipt_def Headers_set_header)
qed

lemma Send_frame_content_type:
  assumes "Send_frame dest hdrs bodyType body receipt = Inr f"
  shows "map_of (Headers f) ''content-type'' = Some bodyType"
proof -
  from assms obtain g where g: "makeSendFrame dest hdrs bodyType body = Inr g"
    and f: "f = with_receipt receipt g"
    by (auto simp: Send_frame_def split: sum.splits)
  from makeSendFrame_reserved [OF g, of "''content-type''"]
  have "map_of (Headers g) ''content-type'' = Some bodyType"
    by (simp add: forbidden_def)
  then show ?thesis
    using f by (cases receipt) (simp_all add: with_receipt_def Headers_set_header)
qed

text \<open>
  C3.  \<open>Transport.Send\<close> called without a body, without headers and without a receipt:
  the frame it encodes has the headers \<open>content-type\<close> and \<open>content-length\<close>, since
  \<open>NewFrame\<close> has put an empty reader in the place of the absent body before
  \<open>makeSendFrame\<close> tests the body for nil.
\<close>

theorem Send_frame_without_body_has_content_type:
  "Send_frame ''/queue/a'' None ''text/plain'' None None =
     Inr \<lparr>Command = ''SEND'',
          Headers = [(''destination'', ''/queue/a''), (''content-type'', ''text/plain''),
                     (''content-length'', ''0'')],
          Body = Some (NopCloser emptyBuffer)\<rparr>"
  by code_simp

section \<open>Properties of connecting\<close>

text \<open>
  When \<open>Connect\<close> fails and leaves the stream open, the stream was dialed and the
  sending of the CONNECT frame failed with the error that \<open>Connect\<close> returns: the
  failures of the TLS handshake, of the decoding of the response and of a response
  other than CONNECTED all close the stream.
\<close>

lemma Connect_failure_open_stream:
  assumes "Connect toString net conf tr = (Inl e, Some c)" and "is_open c"
  shows "\<exists>c0. dial net = Inr c0 \<and>
              conn_Encode c0 (connect_request toString
                                (case conf of None \<Rightarrow> DefaultConfig | Some x \<Rightarrow> x)) = (Some e, c)"
  using assms
  unfolding Connect_def Let_def
  by (auto simp: conn_Close_def split: sum.splits option.splits prod.splits if_splits)

text \<open>
  C6.  \<open>Connect\<close> on a stream that is dialed without TLS and refuses the first write:
  the sending of the CONNECT frame fails, \<open>Connect\<close> returns that error, and the
  stream is still open.
\<close>

theorem Connect_send_failure_leaves_stream_open:
  "Connect (\<lambda>h. ''0,0'')
     \<lparr>dial = Inr \<lparr>wr = \<lparr>out = [], quota = Some 0\<rparr>, rd = [], is_open = True\<rparr>,
      handshake = None\<rparr> None None
   = (Inl ErrWrite, Some \<lparr>wr = \<lparr>out = [], quota = Some 0\<rparr>, rd = [], is_open = True\<rparr>)"
  by code_simp

section \<open>Properties of the reader\<close>

lemma Client_read_Inl:
  "Transport_Recv (transport c) = (Inl e, t1) \<Longrightarrow>
     Client_read takers c = read_exit (c\<lparr>transport := t1\<rparr>)"
  by (simp add: Client_read.simps [of takers c])

lemma Client_read_Inr:
  "Transport_Recv (transport c) = (Inr f, t1) \<Longrightarrow>
     Client_read takers c =
       (if Command f = ''HEARTBEAT'' then Client_read takers (c\<lparr>transport := t1\<rparr>)
        else if Command f = ''RECEIPT'' then
          (case map_of (Headers f) ''receipt-id'' of
             None \<Rightarrow> Panics ''stomp: received a receipt frame without an ID'' (c\<lparr>transport := t1\<rparr>)
           | Some ident \<Rightarrow>
               Client_read takers (c\<lparr>transport := t1, receipts := Clear (receipts c) ident\<rparr>))
        else if Command f = ''MESSAGE'' then
          (case takers of
             0 \<Rightarrow> BlocksOnMsgCh (c\<lparr>transport := t1\<rparr>)
           | Suc k \<Rightarrow> Client_read k (c\<lparr>transport := t1, MsgCh := MsgCh c @ [f]\<rparr>))
        else if Command f = ''ERROR'' then
          read_exit (c\<lparr>transport := t1, ErrCh := ErrCh c @ [f]\<rparr>)
        else Panics (''stomp: received unkown frame '' @ Command f) (c\<lparr>transport := t1\<rparr>))"
  by (simp add: Client_read.simps [of takers c])

text \<open>
  C5, as the code has it.  Let \<open>c\<close> be the client when the loop of \<open>Client.read\<close>
  receives a frame.  If the frame is a RECEIPT frame without a \<open>receipt-id\<close> header, or
  if its command is none of HEARTBEAT, RECEIPT, MESSAGE and ERROR, the loop panics: the
  client is left as it was but for the bytes read, so that nothing is sent on \<open>ErrCh\<close>
  and neither the registry's \<open>closed\<close> channel nor \<open>MsgCh\<close> is closed.
\<close>

theorem read_panics_on_protocol_violation:
  assumes "Transport_Recv (transport c) = (Inr f, t1)"
    and "(Command f = ''RECEIPT'' \<and> map_of (Headers f) ''receipt-id'' = None) \<or>
         Command f \<notin> set [''HEARTBEAT'', ''RECEIPT'', ''MESSAGE'', ''ERROR'']"
  shows "\<exists>msg. Client_read takers c = Panics msg (c\<lparr>transport := t1\<rparr>)"
  using assms(2) by (auto simp: Client_read_Inr [OF assms(1)])

theorem read_panics_on_protocol_violation_witness:
  "\<exists>msg. Client_read 0
      \<lparr>transport = \<lparr>wr = \<lparr>out = [], quota = None\<rparr>,
                    rd = ''RECEIPT'' @ [CHR 0x0A, CHR 0x0A, CHR 0x00], is_open = True\<rparr>,
       receipts = newReceipts, MsgCh = [], MsgCh_closed = False, ErrCh = []\<rparr>
    = Panics msg
      \<lparr>transport = \<lparr>wr = \<lparr>out = [], quota = None\<rparr>, rd = [], is_open = True\<rparr>,
       receipts = newReceipts, MsgCh = [], MsgCh_closed = False, ErrCh = []\<rparr>"
proof -
  let ?t = "\<lparr>wr = \<lparr>out = [], quota = None\<rparr>,
             rd = ''RECEIPT'' @ [CHR 0x0A, CHR 0x0A, CHR 0x00], is_open = True\<rparr>"
  let ?f = "\<lparr>Command = ''RECEIPT'', Headers = [],
             Body = Some (NopCloser (NewReader [CHR 0x00]))\<rparr>"
  let ?t1 = "\<lparr>wr = \<lparr>out = [], quota = None\<rparr>, rd = [], is_open = True\<rparr>"
  let ?c = "\<lparr>transport = ?t, receipts = newReceipts, MsgCh = [], MsgCh_closed = False, ErrCh = []\<rparr>"
  have recv: "Transport_Recv (transport ?c) = (Inr ?f, ?t1)"
    by code_simp
  have viol: "(Command ?f = ''RECEIPT'' \<and> map_of (Headers ?f) ''receipt-id'' = None) \<or>
         Command ?f \<notin> set [''HEARTBEAT'', ''RECEIPT'', ''MESSAGE'', ''ERROR'']"
    by simp
  from read_panics_on_protocol_violation [OF recv viol, of 0] show ?thesis
    by simp
qed

text \<open>
  C5, as the claim has it, fails: a RECEIPT frame without a \<open>receipt-id\<close> header makes
  the loop panic; no frame reaches \<open>ErrCh\<close> and the loop does not leave by its exit.
\<close>

theorem read_receipt_without_id_counterexample:
  "Client_read 0
      \<lparr>transport = \<lparr>wr = \<lparr>out = [], quota = None\<rparr>,
                    rd = ''RECEIPT'' @ [CHR 0x0A, CHR 0x0A, CHR 0x00], is_open = True\<rparr>,
       receipts = newReceipts, MsgCh = [], MsgCh_closed = False, ErrCh = []\<rparr>
    = Panics ''stomp: received a receipt frame without an ID''
      \<lparr>transport = \<lparr>wr = \<lparr>out = [], quota = None\<rparr>, rd = [], is_open = True\<rparr>,
       receipts = newReceipts, MsgCh = [], MsgCh_closed = False, ErrCh = []\<rparr>"
  by code_simp

lemma Client_read_Exits:
  "Client_read takers c = Exits c1 \<Longrightarrow> closed (receipts c1) \<and> MsgCh_closed c1"
proof (induction takers c rule: Client_read.induct)
  case (1 takers c)
  obtain res t1 where r: "Transport_Recv (transport c) = (res, t1)"
    by (cases "Transport_Recv (transport c)")
  show ?case
  proof (cases res)
    case (Inl e)
    with r "1.prems" show ?thesis
      by (auto simp: Client_read_Inl read_exit_def)
  next
    case (Inr f)
    with r have rf: "Transport_Recv (transport c) = (Inr f, t1)" by simp
    note ih = "1.IH" [OF rf [symmetric] refl]
    show ?thesis
      using "1.prems" ih
      by (auto simp: Client_read_Inr [OF rf] read_exit_def split: if_splits option.splits nat.splits)
  qed
qed

text \<open>
  C9.  When the loop of \<open>Client.read\<close> leaves by its exit, the registry's \<open>closed\<close>
  channel and \<open>MsgCh\<close> are closed.  For a receipt wait that is pending then (its
  channel is not closed), the \<open>select\<close> of \<open>doWithReceipt\<close> has exactly one case that
  can fire, the one of the \<open>closed\<close> channel; with it the call returns the error
  \<open>stomp: channel closed\<close> and leaves the registry without an entry for its
  identifier.  The loop leaves by its exit when receiving fails and when an ERROR frame
  arrives, which it puts on \<open>ErrCh\<close>.
\<close>

theorem read_exit_releases_pending_receipts:
  "(Client_read takers c = Exits c1 \<longrightarrow>
      closed (receipts c1) \<and> MsgCh_closed c1 \<and>
      (\<forall>ch. ch \<notin> set (closed_chans (receipts c1)) \<longrightarrow>
            select_ready (receipts c1) ch = [ConnClosed]) \<and>
      (\<forall>ident. \<exists>r2. doWithReceipt_resume (receipts c1) ident ConnClosed
                         = (Some ErrChannelClosed, r2) \<and>
                       map_of (orders r2) ident = None \<and> closed r2)) \<and>
   (Transport_Recv (transport c) = (Inl e, t1) \<longrightarrow> (\<exists>c2. Client_read takers c = Exits c2)) \<and>
   (Transport_Recv (transport c) = (Inr f, t1) \<and> Command f = ''ERROR'' \<longrightarrow>
      (\<exists>c2. Client_read takers c = Exits c2 \<and> ErrCh c2 = ErrCh c @ [f]))"
proof (intro conjI impI)
  assume ex: "Client_read takers c = Exits c1"
  from Client_read_Exits [OF ex] show "closed (receipts c1)" and "MsgCh_closed c1"
    by simp_all
  then show "\<forall>ch. ch \<notin> set (closed_chans (receipts c1)) \<longrightarrow>
            select_ready (receipts c1) ch = [ConnClosed]"
    by (simp add: select_ready_def)
  from \<open>closed (receipts c1)\<close>
  show "\<forall>ident. \<exists>r2. doWithReceipt_resume (receipts c1) ident ConnClosed
                         = (Some ErrChannelClosed, r2) \<and>
                       map_of (orders r2) ident = None \<and> closed r2"
    by (auto simp: doWithReceipt_resume_def Clear_def delete_conv split: option.splits)
next
  assume "Transport_Recv (transport c) = (Inl e, t1)"
  then show "\<exists>c2. Client_read takers c = Exits c2"
    by (simp add: Client_read_Inl read_exit_def)
next
  assume "Transport_Recv (transport c) = (Inr f, t1) \<and> Command f = ''ERROR''"
  then show "\<exists>c2. Client_read takers c = Exits c2 \<and> ErrCh c2 = ErrCh c @ [f]"
    by (auto simp: Client_read_Inr read_exit_def)
qed

text \<open>
  A client with one pending receipt (\<open>r1\<close>, on channel 0) that reads an ERROR frame.
\<close>

theorem read_exit_releases_pending_receipts_witness:
  "select_ready
     \<lparr>closed = True, orders = [(''r1'', 0)], closed_chans = [], next_chan = 1\<rparr> 0 = [ConnClosed] \<and>
   doWithReceipt_resume
     \<lparr>closed = True, orders = [(''r1'', 0)], closed_chans = [], next_chan = 1\<rparr> ''r1'' ConnClosed
     = (Some ErrChannelClosed,
        \<lparr>closed = True, orders = [], closed_chans = [0], next_chan = 1\<rparr>)"
proof -
  let ?c = "\<lparr>transport = \<lparr>wr = \<lparr>out = [], quota = None\<rparr>,
                    rd = ''ERROR'' @ [CHR 0x0A, CHR 0x0A, CHR 0x00], is_open = True\<rparr>,
       receipts = \<lparr>closed = False, orders = [(''r1'', 0)], closed_chans = [], next_chan = 1\<rparr>,
       MsgCh = [], MsgCh_closed = False, ErrCh = []\<rparr>"
  let ?f = "\<lparr>Command = ''ERROR'', Headers = [], Body = Some (NopCloser (NewReader [CHR 0x00]))\<rparr>"
  let ?c1 = "\<lparr>transport = \<lparr>wr = \<lparr>out = [], quota = None\<rparr>, rd = [], is_open = True\<rparr>,
       receipts = \<lparr>closed = True, orders = [(''r1'', 0)], closed_chans = [], next_chan = 1\<rparr>,
       MsgCh = [], MsgCh_closed = True, ErrCh = [?f]\<rparr>"
  have run: "Client_read 0 ?c = Exits ?c1"
    by code_simp
  have resume: "doWithReceipt_resume
     \<lparr>closed = True, orders = [(''r1'', 0)], closed_chans = [], next_chan = 1\<rparr> ''r1'' ConnClosed
     = (Some ErrChannelClosed,
        \<lparr>closed = True, orders = [], closed_chans = [0], next_chan = 1\<rparr>)"
    by code_simp
  from read_exit_releases_pending_receipts [of 0 ?c ?c1, THEN conjunct1] run resume
  show ?thesis by simp
qed

text \<open>
  The wait of \<open>Client.Disconnect\<close> is not one of these: once its frame is sent, it
  returns no error, whichever case of its \<open>select\<close> fires, and the stream is closed.
\<close>

lemma Client_Disconnect_returns_no_error:
  assumes "uuid e = Some ident" and "Transport_Disconnect (transport c) ident = (None, t1)"
    and "wake e = Some b"
  shows "\<exists>c1. Client_Disconnect e c = (Returns None, c1) \<and> \<not> is_open (transport c1)"
  using assms
  by (cases b) (auto simp: Client_Disconnect_def conn_Close_def split: prod.splits)

section \<open>Properties of the codec\<close>

lemma read_until_append:
  "d \<notin> set xs \<Longrightarrow> read_until d (xs @ d # ys) = Some (xs @ [d], ys)"
  by (induction xs) auto

lemma Trim_core:
  assumes "xs \<noteq> []" and "hd xs \<notin> set cs" and "last xs \<notin> set cs" and "set ys \<subseteq> set cs"
  shows "Trim (xs @ ys) cs = xs"
proof -
  from assms(1) obtain x xs' where xs: "xs = x # xs'" by (cases xs) auto
  have front: "dropWhile (\<lambda>c. c \<in> set cs) (xs @ ys) = xs @ ys"
    using assms(2) xs by simp
  have "dropWhile (\<lambda>c. c \<in> set cs) (rev ys @ rev xs) = dropWhile (\<lambda>c. c \<in> set cs) (rev xs)"
    using assms(4) by (intro dropWhile_append2) auto
  also have "\<dots> = rev xs"
    using assms(1,3) by (cases xs rule: rev_cases) auto
  finally show ?thesis
    by (simp add: Trim_def front)
qed

lemma Split_no_sep: "sep \<notin> set s \<Longrightarrow> Split s sep = [s]"
  by (induction s) auto

lemma Split_once: "sep \<notin> set k \<Longrightarrow> sep \<notin> set v \<Longrightarrow> Split (k @ sep # v) sep = [k, v]"
  by (induction k) (auto simp: Split_no_sep)

lemma update_fresh: "k \<notin> fst ` set al \<Longrightarrow> AList.update k v al = al @ [(k, v)]"
  by (induction al) auto

lemma fold_update_distinct:
  "distinct (map fst (acc @ hs)) \<Longrightarrow> fold (\<lambda>(k, v). AList.update k v) hs acc = acc @ hs"
proof (induction hs arbitrary: acc)
  case Nil
  show ?case by simp
next
  case (Cons h hs)
  obtain k v where h: "h = (k, v)" by (cases h)
  from Cons.prems h have fresh: "k \<notin> fst ` set acc" by auto
  from Cons.prems h have "distinct (map fst ((acc @ [(k, v)]) @ hs))" by simp
  from Cons.IH [OF this] show ?case
    by (simp add: h update_fresh [OF fresh])
qed

lemma decimal_val_snoc: "decimal_val (ds @ [c]) = 10 * decimal_val ds + int (digit_val c)"
  by (simp add: decimal_val_def)

lemma of_char_digit_char: "d < 10 \<Longrightarrow> (of_char (digit_char d) :: nat) = 48 + d"
  by (simp add: digit_char_def)

lemma decimal_digits:
  "list_all is_digit (decimal n) \<and> decimal n \<noteq> [] \<and> decimal_val (decimal n) = int n"
proof (induction n rule: decimal.induct)
  case (1 n)
  show ?case
  proof (cases "n < 10")
    case True
    then show ?thesis
      by (simp add: decimal.simps [of n] is_digit_def decimal_val_def digit_val_def
                    of_char_digit_char)
  next
    case False
    have "n mod 10 < 10" by simp
    moreover have "10 * int (n div 10) + int (n mod 10) = int n"
      by (simp add: zdiv_int zmod_int)
    ultimately show ?thesis
      using "1.IH" [OF False] False
      by (simp add: decimal.simps [of n] is_digit_def decimal_val_snoc digit_val_def
                    of_char_digit_char)
  qed
qed

lemma is_digit_not_sign: "is_digit c \<Longrightarrow> c \<noteq> CHR ''-'' \<and> c \<noteq> CHR ''+''"
  by (auto simp: is_digit_def)

lemma Atoi_Itoa:
  assumes "n < 2 ^ 63"
  shows "Atoi (Itoa (int n)) = Inr (int n)"
proof -
  from decimal_digits [of n] obtain c r where cr: "decimal n = c # r"
    and dig: "list_all is_digit (c # r)" and val: "decimal_val (c # r) = int n"
    by (cases "decimal n") auto
  from dig have "c \<noteq> CHR ''-''" "c \<noteq> CHR ''+''"
    using is_digit_not_sign [of c] by simp_all
  moreover have "int n \<le> 2 ^ 63 - 1"
    using assms by (simp add: of_nat_less_iff [of n "2 ^ 63", where 'a = int, simplified])
  ultimately show ?thesis
    using dig val by (simp add: Atoi_def Itoa_def cr)
qed


lemma Write_None: "quota w = None \<Longrightarrow> Write w s = (None, w\<lparr>out := out w @ s\<rparr>)"
  by (simp add: Write_def)

lemma write_headers_None:
  "quota w = None \<Longrightarrow> write_headers hs w = (None, w\<lparr>out := out w @ header_lines hs\<rparr>)"
proof (induction hs arbitrary: w)
  case Nil
  show ?case by (simp add: header_lines_def)
next
  case (Cons h hs)
  obtain k v where h: "h = (k, v)" by (cases h)
  let ?w1 = "w\<lparr>out := out w @ k @ '':'' @ v @ [CHR 0x0A]\<rparr>"
  have "write_headers hs ?w1 = (None, ?w1\<lparr>out := out ?w1 @ header_lines hs\<rparr>)"
    by (rule Cons.IH) (use Cons.prems in simp)
  then show ?case
    using Cons.prems by (simp add: h Write_None header_lines_def)
qed

lemma Encode_None:
  assumes "Command f \<noteq> ''HEARTBEAT''" and "Body f = Some b" and "\<not> read_fails b"
    and "closer b \<noteq> Some True" and "quota w = None"
  shows "Encode w f =
           (None, w\<lparr>out := out w @ Command f @ CHR 0x0A # header_lines (Headers f) @
                                CHR 0x0A # contents b @ [CHR 0x00]\<rparr>)"
proof -
  let ?w1 = "w\<lparr>out := out w @ Command f @ [CHR 0x0A]\<rparr>"
  let ?w2 = "?w1\<lparr>out := out ?w1 @ header_lines (Headers f)\<rparr>"
  let ?w3 = "?w2\<lparr>out := out ?w2 @ [CHR 0x0A]\<rparr>"
  let ?w4 = "?w3\<lparr>out := out ?w3 @ contents b\<rparr>"
  have s1: "Write w (Command f @ [CHR 0x0A]) = (None, ?w1)"
    using assms(5) by (rule Write_None)
  have s2: "write_headers (Headers f) ?w1 = (None, ?w2)"
    using assms(5) by (intro write_headers_None) simp
  have s3: "Write ?w2 [CHR 0x0A] = (None, ?w3)"
    using assms(5) by (intro Write_None) simp
  have s4: "copy_body b ?w3 = (None, ?w4)"
    using assms(3,4,5) by (cases "contents b = []") (simp_all add: copy_body_def Write_None)
  have s5: "Write ?w4 [CHR 0x00] = (None, ?w4\<lparr>out := out ?w4 @ [CHR 0x00]\<rparr>)"
    using assms(5) by (intro Write_None) simp
  show ?thesis
    unfolding Encode_def using assms(1,2)
    by (simp only: s1 s2 s3 s4 s5 if_False prod.case option.case) simp
qed

lemma read_headers_lines:
  "list_all wire_header hs \<Longrightarrow>
     read_headers (header_lines hs @ CHR 0x0A # rest) acc
       = (Inr (fold (\<lambda>(k, v). AList.update k v) hs acc), rest)"
proof (induction hs arbitrary: acc)
  case Nil
  show ?case
    by (simp add: header_lines_def read_headers.simps [of "CHR 0x0A # rest"])
next
  case (Cons h hs)
  obtain k v where h: "h = (k, v)" by (cases h)
  let ?line = "k @ CHR '':'' # v"
  let ?tail = "header_lines hs @ CHR 0x0A # rest"
  from Cons.prems h have wh: "wire_header (k, v)" and rest_ok: "list_all wire_header hs"
    by simp_all
  from wh have safe: "CHR '':'' \<notin> set k" "CHR 0x0A \<notin> set k"
      "CHR '':'' \<notin> set v" "CHR 0x0A \<notin> set v"
    by (simp_all add: wire_header_def)
  have inp: "header_lines (h # hs) @ CHR 0x0A # rest = ?line @ CHR 0x0A # ?tail"
    by (simp add: header_lines_def h)
  have nl: "CHR 0x0A \<notin> set ?line"
    using safe by simp
  have ru: "read_until (CHR 0x0A) (?line @ CHR 0x0A # ?tail) = Some (?line @ [CHR 0x0A], ?tail)"
    using nl by (rule read_until_append)
  have ne: "?line @ [CHR 0x0A] \<noteq> [CHR 0x0A]"
    by simp
  have "?line \<noteq> []" by simp
  then have "hd ?line \<in> set ?line" "last ?line \<in> set ?line"
    by (rule hd_in_set, rule last_in_set)
  with nl have ends: "hd ?line \<notin> set [CHR 0x0A]" "last ?line \<notin> set [CHR 0x0A]"
    by auto
  have tr: "Trim (?line @ [CHR 0x0A]) [CHR 0x0A] = ?line"
    using \<open>?line \<noteq> []\<close> ends by (rule Trim_core) simp
  have sp: "Split ?line (CHR '':'') = [k, v]"
    using safe(1,3) by (rule Split_once)
  show ?case
    unfolding inp
    by (subst read_headers.simps) (simp only: ru option.case prod.case ne if_False tr sp list.case
          Cons.IH [OF rest_ok] h fold_simps)
qed


lemma Trim_command:
  assumes "wire_command c"
  shows "Trim (c @ [CHR 0x0A]) [CHR 0x0D, CHR 0x0A] = c"
proof -
  from assms have ne: "c \<noteq> []" and nl: "CHR 0x0A \<notin> set c"
    and h: "hd c \<noteq> CHR 0x0D" and l: "last c \<noteq> CHR 0x0D"
    by (simp_all add: wire_command_def)
  from ne have "hd c \<in> set c" "last c \<in> set c"
    by (rule hd_in_set, rule last_in_set)
  with nl h l have "hd c \<notin> set [CHR 0x0D, CHR 0x0A]" "last c \<notin> set [CHR 0x0D, CHR 0x0A]"
    by auto
  with ne show ?thesis
    by (rule Trim_core) simp
qed

lemma read_body_content_length:
  assumes "map_of hdrs ''content-length'' = Some (Itoa (int (length body)))"
    and "length body < 2 ^ 63"
  shows "read_body hdrs (body @ tail) = Inr (body, tail)"
  using assms(1) Atoi_Itoa [OF assms(2)] by (simp add: read_body_def)

text \<open>
  C1, as the code has it.  Take a frame whose command is not empty, is not HEARTBEAT,
  has no newline and neither starts nor ends with a carriage return; whose header names
  and values have no colon and no newline; whose body can be read and closed; and whose
  \<open>content-length\<close> header is the decimal byte length of the body.  On a writer that
  does not fail, \<open>Encode\<close> succeeds, and \<open>Decode\<close> of the bytes written, whatever
  follows them on the stream, succeeds, consumes exactly these bytes and gives the
  command, the headers and the body bytes of the frame.
\<close>

theorem decode_encode_roundtrip:
  assumes "wire_command (Command f)"
    and "distinct (map fst (Headers f))" and "list_all wire_header (Headers f)"
    and "Body f = Some b" and "\<not> read_fails b" and "closer b \<noteq> Some True"
    and "length (contents b) < 2 ^ 63"
    and "map_of (Headers f) ''content-length'' = Some (Itoa (int (length (contents b))))"
    and "quota w = None"
  shows "\<exists>bytes g. Encode w f = (None, w\<lparr>out := out w @ bytes\<rparr>) \<and>
           Decode (bytes @ rest) f0 = ((None, g), rest) \<and>
           Command g = Command f \<and> Headers g = Headers f \<and>
           (\<exists>b1. Body g = Some b1 \<and> contents b1 = contents b)"
proof -
  let ?c = "Command f"
  let ?after_headers = "contents b @ CHR 0x00 # rest"
  let ?after_command = "header_lines (Headers f) @ CHR 0x0A # ?after_headers"
  let ?bytes = "?c @ CHR 0x0A # header_lines (Headers f) @ CHR 0x0A # contents b @ [CHR 0x00]"
  let ?g = "f0\<lparr>Command := ?c, Headers := Headers f,
               Body := Some (NopCloser (NewReader (contents b)))\<rparr>"
  from assms(1) have cmd: "?c \<noteq> ''HEARTBEAT''" "?c \<noteq> []" "CHR 0x0A \<notin> set ?c"
    by (simp_all add: wire_command_def)
  have enc: "Encode w f = (None, w\<lparr>out := out w @ ?bytes\<rparr>)"
    using cmd(1) assms(4,5,6,9) by (rule Encode_None)
  have stream: "?bytes @ rest = ?c @ CHR 0x0A # ?after_command"
    by simp
  have r1: "read_until (CHR 0x0A) (?c @ CHR 0x0A # ?after_command)
              = Some (?c @ [CHR 0x0A], ?after_command)"
    using cmd(3) by (rule read_until_append)
  have not_hb: "?c @ [CHR 0x0A] \<noteq> [CHR 0x0A]"
    using cmd(2) by simp
  have folded: "fold (\<lambda>(k, v). AList.update k v) (Headers f) [] = Headers f"
    using fold_update_distinct [of "[]" "Headers f"] assms(2) by simp
  have r2: "read_headers ?after_command [] = (Inr (Headers f), ?after_headers)"
    using read_headers_lines [OF assms(3), of ?after_headers "[]"] folded by simp
  have r3: "read_body (Headers f) ?after_headers = Inr (contents b, CHR 0x00 # rest)"
    using assms(8,7) by (rule read_body_content_length)
  have r4: "read_until (CHR 0x00) (CHR 0x00 # rest) = Some ([CHR 0x00], rest)"
    by simp
  have dec: "Decode (?bytes @ rest) f0 = ((None, ?g), rest)"
    unfolding stream Decode_def
    by (simp only: r1 r2 r3 r4 option.case prod.case sum.case not_hb if_False if_True
          Trim_command [OF assms(1)] refl)
  have "Command ?g = ?c \<and> Headers ?g = Headers f \<and>
        (\<exists>b1. Body ?g = Some b1 \<and> contents b1 = contents b)"
    by (simp add: NopCloser_def NewReader_def)
  with enc dec show ?thesis by blast
qed

text \<open>A SEND frame with two headers and the body \<open>abc\<close>, followed by a heartbeat.\<close>

theorem decode_encode_roundtrip_witness:
  "\<exists>bytes g.
      Encode \<lparr>out = [], quota = None\<rparr>
        \<lparr>Command = ''SEND'',
         Headers = [(''destination'', ''/queue/a''), (''content-length'', ''3'')],
         Body = Some (NopCloser (NewReader ''abc''))\<rparr>
        = (None, \<lparr>out = bytes, quota = None\<rparr>) \<and>
      Decode (bytes @ [CHR 0x0A]) emptyFrame = ((None, g), [CHR 0x0A]) \<and>
      Command g = ''SEND'' \<and>
      Headers g = [(''destination'', ''/queue/a''), (''content-length'', ''3'')] \<and>
      (\<exists>b1. Body g = Some b1 \<and> contents b1 = ''abc'')"
proof -
  let ?b = "NopCloser (NewReader ''abc'')"
  let ?f = "\<lparr>Command = ''SEND'',
         Headers = [(''destination'', ''/queue/a''), (''content-length'', ''3'')],
         Body = Some ?b\<rparr>"
  let ?w = "\<lparr>out = [], quota = None\<rparr>"
  have h1: "wire_command (Command ?f)" by code_simp
  have h2: "distinct (map fst (Headers ?f))" by code_simp
  have h3: "list_all wire_header (Headers ?f)" by code_simp
  have h4: "Body ?f = Some ?b" by simp
  have h5: "\<not> read_fails ?b" by (simp add: NopCloser_def NewReader_def)
  have h6: "closer ?b \<noteq> Some True" by (simp add: NopCloser_def NewReader_def)
  have h7: "length (contents ?b) < 2 ^ 63" by (simp add: NopCloser_def NewReader_def)
  have len: "Itoa (int (length (contents ?b))) = ''3''" by code_simp
  have h8: "map_of (Headers ?f) ''content-length'' = Some (Itoa (int (length (contents ?b))))"
    unfolding len by simp
  have h9: "quota ?w = None" by simp
  from decode_encode_roundtrip [OF h1 h2 h3 h4 h5 h6 h7 h8 h9, of "[CHR 0x0A]" emptyFrame]
  show ?thesis by (simp add: NopCloser_def NewReader_def)
qed

text \<open>
  A heartbeat frame is written as one newline, and one newline is decoded as a frame
  with the command HEARTBEAT and nothing else set.
\<close>

lemma heartbeat_roundtrip:
  "Encode \<lparr>out = [], quota = None\<rparr> (NewFrame ''HEARTBEAT'' None)
     = (None, \<lparr>out = [CHR 0x0A], quota = None\<rparr>) \<and>
   Decode (CHR 0x0A # rest) emptyFrame
     = ((None, \<lparr>Command = ''HEARTBEAT'', Headers = [], Body = None\<rparr>), rest)"
proof
  show "Encode \<lparr>out = [], quota = None\<rparr> (NewFrame ''HEARTBEAT'' None)
     = (None, \<lparr>out = [CHR 0x0A], quota = None\<rparr>)"
    by code_simp
  show "Decode (CHR 0x0A # rest) emptyFrame
     = ((None, \<lparr>Command = ''HEARTBEAT'', Headers = [], Body = None\<rparr>), rest)"
    by (simp add: Decode_def emptyFrame_def)
qed

text \<open>
  C1, as the claim has it, fails.  A frame with the header value \<open>/queue/a:b\<close> is
  encoded, and the decoder refuses the bytes, since the header line has two colons.  A
  frame with the body \<open>abc\<close> and no \<open>content-length\<close> header is encoded, and the body
  of the decoded frame is not \<open>abc\<close>.
\<close>

theorem decode_encode_counterexample:
  "Encode \<lparr>out = [], quota = None\<rparr>
     \<lparr>Command = ''SEND'',
      Headers = [(''destination'', ''/queue/a:b''), (''content-length'', ''0'')],
      Body = Some (NopCloser (NewReader []))\<rparr>
     = (None, \<lparr>out = ''SEND'' @ [CHR 0x0A] @ ''destination:/queue/a:b'' @ [CHR 0x0A] @
                     ''content-length:0'' @ [CHR 0x0A, CHR 0x0A, CHR 0x00],
               quota = None\<rparr>) \<and>
   fst (fst (Decode (''SEND'' @ [CHR 0x0A] @ ''destination:/queue/a:b'' @ [CHR 0x0A] @
                      ''content-length:0'' @ [CHR 0x0A, CHR 0x0A, CHR 0x00]) emptyFrame))
     = Some ErrHeader \<and>
   Encode \<lparr>out = [], quota = None\<rparr>
     \<lparr>Command = ''SEND'', Headers = [(''destination'', ''/queue/a'')],
      Body = Some (NopCloser (NewReader ''abc''))\<rparr>
     = (None, \<lparr>out = ''SEND'' @ [CHR 0x0A] @ ''destination:/queue/a'' @ [CHR 0x0A, CHR 0x0A] @
                     ''abc'' @ [CHR 0x00],
               quota = None\<rparr>) \<and>
   Decode (''SEND'' @ [CHR 0x0A] @ ''destination:/queue/a'' @ [CHR 0x0A, CHR 0x0A] @
           ''abc'' @ [CHR 0x00]) emptyFrame
     = ((None, \<lparr>Command = ''SEND'', Headers = [(''destination'', ''/queue/a'')],
               Body = Some (NopCloser (NewReader ([CHR 0x00] @ ''abc'' @ [CHR 0x00])))\<rparr>), [])"
  by code_simp

section \<open>Properties of the decoded body\<close>

text \<open>
  What \<open>Decode\<close> makes of the bytes between the blank line and the terminator, for a
  command line and header lines as \<open>Encode\<close> writes them.  Without a
  \<open>content-length\<close> header the body starts with a zero byte and, unless it is empty,
  ends with the terminator.  With a \<open>content-length\<close> header and further bytes before
  the terminator, the body ends with the terminator.
\<close>

lemma Decode_without_content_length:
  assumes "wire_command c" and "distinct (map fst hs)" and "list_all wire_header hs"
    and "map_of hs ''content-length'' = None" and "CHR 0x00 \<notin> set payload"
  shows "Decode (c @ CHR 0x0A # header_lines hs @ CHR 0x0A # payload @ CHR 0x00 # rest) f0
           = ((None, f0\<lparr>Command := c, Headers := hs,
                         Body := Some (NopCloser (NewReader
                                   (if payload = [] then [CHR 0x00]
                                    else CHR 0x00 # payload @ [CHR 0x00])))\<rparr>), rest)"
proof -
  let ?after_headers = "payload @ CHR 0x00 # rest"
  let ?after_command = "header_lines hs @ CHR 0x0A # ?after_headers"
  from assms(1) have cmd: "c \<noteq> []" "CHR 0x0A \<notin> set c"
    by (simp_all add: wire_command_def)
  have r1: "read_until (CHR 0x0A) (c @ CHR 0x0A # ?after_command) = Some (c @ [CHR 0x0A], ?after_command)"
    using cmd(2) by (rule read_until_append)
  have not_hb: "c @ [CHR 0x0A] \<noteq> [CHR 0x0A]"
    using cmd(1) by simp
  have folded: "fold (\<lambda>(k, v). AList.update k v) hs [] = hs"
    using fold_update_distinct [of "[]" hs] assms(2) by simp
  have r2: "read_headers ?after_command [] = (Inr hs, ?after_headers)"
    using read_headers_lines [OF assms(3), of ?after_headers "[]"] folded by simp
  have r3: "read_body hs ?after_headers = Inr ([CHR 0x00], ?after_headers)"
    using assms(4) by (simp add: read_body_def)
  have r4: "read_until (CHR 0x00) ?after_headers = Some (payload @ [CHR 0x00], rest)"
    using assms(5) by (rule read_until_append)
  have b: "(if payload @ [CHR 0x00] = [CHR 0x00] then [CHR 0x00]
            else [CHR 0x00] @ payload @ [CHR 0x00])
           = (if payload = [] then [CHR 0x00] else CHR 0x00 # payload @ [CHR 0x00])"
    by simp
  show ?thesis
    unfolding Decode_def
    by (simp only: r1 r2 r3 r4 option.case prod.case sum.case not_hb if_False
          Trim_command [OF assms(1)] b)
qed

lemma Decode_with_content_length_and_more:
  assumes "wire_command c" and "distinct (map fst hs)" and "list_all wire_header hs"
    and "map_of hs ''content-length'' = Some (Itoa (int (length body)))"
    and "length body < 2 ^ 63" and "extra \<noteq> []" and "CHR 0x00 \<notin> set extra"
  shows "Decode (c @ CHR 0x0A # header_lines hs @ CHR 0x0A # body @ extra @ CHR 0x00 # rest) f0
           = ((None, f0\<lparr>Command := c, Headers := hs,
                         Body := Some (NopCloser (NewReader (body @ extra @ [CHR 0x00])))\<rparr>), rest)"
proof -
  let ?after_body = "extra @ CHR 0x00 # rest"
  let ?after_headers = "body @ ?after_body"
  let ?after_command = "header_lines hs @ CHR 0x0A # ?after_headers"
  from assms(1) have cmd: "c \<noteq> []" "CHR 0x0A \<notin> set c"
    by (simp_all add: wire_command_def)
  have r1: "read_until (CHR 0x0A) (c @ CHR 0x0A # ?after_command) = Some (c @ [CHR 0x0A], ?after_command)"
    using cmd(2) by (rule read_until_append)
  have not_hb: "c @ [CHR 0x0A] \<noteq> [CHR 0x0A]"
    using cmd(1) by simp
  have folded: "fold (\<lambda>(k, v). AList.update k v) hs [] = hs"
    using fold_update_distinct [of "[]" hs] assms(2) by simp
  have r2: "read_headers ?after_command [] = (Inr hs, ?after_headers)"
    using read_headers_lines [OF assms(3), of ?after_headers "[]"] folded by simp
  have r3: "read_body hs ?after_headers = Inr (body, ?after_body)"
    using assms(4,5) by (rule read_body_content_length)
  have r4: "read_until (CHR 0x00) ?after_body = Some (extra @ [CHR 0x00], rest)"
    using assms(7) by (rule read_until_append)
  have b: "(if extra @ [CHR 0x00] = [CHR 0x00] then body else body @ extra @ [CHR 0x00])
           = body @ extra @ [CHR 0x00]"
    using assms(6) by simp
  show ?thesis
    unfolding Decode_def
    by (simp only: r1 r2 r3 r4 option.case prod.case sum.case not_hb if_False
          Trim_command [OF assms(1)] b)
qed

text \<open>
  C2.  Without a \<open>content-length\<close> header, the body \<open>abc\<close> between the blank line and
  the terminator is decoded as the five bytes 0, \<open>a\<close>, \<open>b\<close>, \<open>c\<close>, 0, and an empty body
  as the byte 0.  With \<open>content-length:2\<close> and the bytes \<open>abcd\<close> before the
  terminator, the decoded body is \<open>abcd\<close> followed by the terminator.
\<close>

theorem Decode_body_keeps_terminator:
  "Decode (''MESSAGE'' @ [CHR 0x0A, CHR 0x0A] @ ''abc'' @ [CHR 0x00]) emptyFrame
     = ((None, \<lparr>Command = ''MESSAGE'', Headers = [],
               Body = Some (NopCloser (NewReader ([CHR 0x00] @ ''abc'' @ [CHR 0x00])))\<rparr>), []) \<and>
   Decode (''MESSAGE'' @ [CHR 0x0A, CHR 0x0A, CHR 0x00]) emptyFrame
     = ((None, \<lparr>Command = ''MESSAGE'', Headers = [],
               Body = Some (NopCloser (NewReader [CHR 0x00]))\<rparr>), []) \<and>
   Decode (''MESSAGE'' @ [CHR 0x0A] @ ''content-length:2'' @ [CHR 0x0A, CHR 0x0A] @
           ''abcd'' @ [CHR 0x00]) emptyFrame
     = ((None, \<lparr>Command = ''MESSAGE'', Headers = [(''content-length'', ''2'')],
               Body = Some (NopCloser (NewReader (''abcd'' @ [CHR 0x00])))\<rparr>), [])"
  by code_simp

section \<open>Properties of the heartbeat negotiation\<close>

lemma sint_maxDuration: "sint (maxDuration a b) = max (sint a) (sint b)"
  by (simp add: maxDuration_def max_def)

lemma maxDuration_cases: "maxDuration a b = a \<or> maxDuration a b = b"
  by (simp add: maxDuration_def)

text \<open>A number of milliseconds up to about 292 years is held by a \<open>Duration\<close> as it is.\<close>

lemma sint_Millisecond:
  assumes "\<bar>x\<bar> \<le> 9223372036854"
  shows "sint (Millisecond * word_of_int x :: Duration) = 1000000 * x"
proof -
  have lo: "- (2 ^ 63) \<le> 1000000 * x" and hi: "1000000 * x < 2 ^ 63"
    using assms by simp_all
  have "(word_of_int (1000000 * x) :: Duration) = Millisecond * word_of_int x"
    unfolding Millisecond_def by (simp only: word_of_int_hom_syms of_int_numeral word_of_int_numeral)
  then have "sint (Millisecond * word_of_int x :: Duration) = sint (word_of_int (1000000 * x) :: Duration)"
    by (rule arg_cong [OF sym])
  also have "\<dots> = signed_take_bit 63 (1000000 * x)"
    by (simp only: sint_sbintrunc') simp
  also have "\<dots> = 1000000 * x"
    using lo hi by (rule signed_take_bit_int_eq_self)
  finally show ?thesis .
qed

text \<open>
  The header text \<open>x,y\<close>, with both numbers written in decimal, is scanned as the
  pair of \<open>x\<close> and \<open>y\<close>.
\<close>

lemma Atoi_Itoa_int:
  assumes "- (2 ^ 63) \<le> x" and "x < 2 ^ 63"
  shows "Atoi (Itoa x) = Inr x"
proof (cases "x < 0")
  case False
  then have "nat x < 2 ^ 63"
    using assms(2) by (simp add: nat_less_iff)
  from Atoi_Itoa [OF this] False show ?thesis by simp
next
  case True
  define m where "m = nat (- x)"
  from True have x: "x = - int m" by (simp add: m_def)
  from decimal_digits [of m] have dig: "list_all is_digit (decimal m)" and ne: "decimal m \<noteq> []"
    and val: "decimal_val (decimal m) = int m"
    by simp_all
  have "int m \<le> 2 ^ 63" using assms(1) x by simp
  then show ?thesis
    using True dig ne val by (simp add: Atoi_def Itoa_def m_def [symmetric] x)
qed

lemma Itoa_shape:
  "\<exists>c r. Itoa x = c # r \<and> c \<noteq> CHR 0x0A \<and> \<not> is_blank c \<and>
         (if x < 0 then c = CHR ''-'' \<and> r = decimal (nat (- x))
          else c \<noteq> CHR ''+'' \<and> c \<noteq> CHR ''-'' \<and> c # r = decimal (nat x))"
proof (cases "x < 0")
  case True
  then show ?thesis by (simp add: Itoa_def is_blank_def)
next
  case False
  from decimal_digits [of "nat x"] obtain c r where cr: "decimal (nat x) = c # r" and d: "is_digit c"
    by (cases "decimal (nat x)") auto
  from d have "c \<noteq> CHR 0x0A" "\<not> is_blank c" "c \<noteq> CHR ''+''" "c \<noteq> CHR ''-''"
    by (auto simp: is_digit_def is_blank_def)
  with False cr show ?thesis by (simp add: Itoa_def)
qed

lemma takeWhile_digits:
  assumes "list_all is_digit ds" and "rest = [] \<or> \<not> (is_digit (hd rest) \<or> hd rest = CHR ''_'')"
  shows "takeWhile (\<lambda>x. is_digit x \<or> x = CHR ''_'') (ds @ rest) = ds"
    and "dropWhile (\<lambda>x. is_digit x \<or> x = CHR ''_'') (ds @ rest) = rest"
proof -
  have all: "\<And>x. x \<in> set ds \<Longrightarrow> is_digit x \<or> x = CHR ''_''"
    using assms(1) by (simp add: list_all_iff)
  have t: "takeWhile (\<lambda>x. is_digit x \<or> x = CHR ''_'') rest = []"
    and d: "dropWhile (\<lambda>x. is_digit x \<or> x = CHR ''_'') rest = rest"
    using assms(2) by (cases rest; simp)+
  show "takeWhile (\<lambda>x. is_digit x \<or> x = CHR ''_'') (ds @ rest) = ds"
    using all t by (simp add: takeWhile_append2)
  show "dropWhile (\<lambda>x. is_digit x \<or> x = CHR ''_'') (ds @ rest) = rest"
    using all d by (simp add: dropWhile_append2)
qed

text \<open>Scanning the decimal writing of a 64-bit integer gives the integer back.\<close>

lemma scanInt_Itoa:
  assumes "- (2 ^ 63) \<le> x" and "x < 2 ^ 63"
    and "rest = [] \<or> \<not> (is_digit (hd rest) \<or> hd rest = CHR ''_'')"
  shows "scanInt (Itoa x @ rest) = Some (x, rest)"
proof -
  from Itoa_shape [of x] obtain c r where cr: "Itoa x = c # r"
    and c: "c \<noteq> CHR 0x0A" "\<not> is_blank c"
    and shape: "if x < 0 then c = CHR ''-'' \<and> r = decimal (nat (- x))
                else c \<noteq> CHR ''+'' \<and> c \<noteq> CHR ''-'' \<and> c # r = decimal (nat x)"
    by blast
  have skip: "SkipSpace (Itoa x @ rest) = Some (c # r @ rest)"
    using c by (simp add: cr)
  have at: "Atoi (c # r) = Inr x"
    using Atoi_Itoa_int [OF assms(1,2)] by (simp add: cr)
  show ?thesis
  proof (cases "x < 0")
    case True
    with shape have c': "c = CHR ''-''" and r: "r = decimal (nat (- x))" by simp_all
    from decimal_digits [of "nat (- x)"] have dig: "list_all is_digit r" and ne: "r \<noteq> []"
      by (simp_all add: r)
    show ?thesis
      unfolding scanInt_def skip
      using takeWhile_digits [OF dig assms(3)] ne at c'
      by (simp add: Let_def)
  next
    case False
    with shape have c': "c \<noteq> CHR ''+''" "c \<noteq> CHR ''-''" and r: "c # r = decimal (nat x)" by simp_all
    from decimal_digits [of "nat x"] have dig: "list_all is_digit (c # r)"
      by (simp add: r)
    have tw: "takeWhile (\<lambda>x. is_digit x \<or> x = CHR ''_'') (c # r @ rest) = c # r"
      "dropWhile (\<lambda>x. is_digit x \<or> x = CHR ''_'') (c # r @ rest) = rest"
      using takeWhile_digits [OF dig assms(3)] by simp_all
    show ?thesis
      unfolding scanInt_def skip
      using c' at by (simp add: Let_def tw del: takeWhile.simps dropWhile.simps)
  qed
qed

lemma Sscanf_d_d_decimal:
  assumes "- (2 ^ 63) \<le> x" "x < 2 ^ 63" "- (2 ^ 63) \<le> y" "y < 2 ^ 63"
  shows "Sscanf_d_d (Itoa x @ '','' @ Itoa y) = (x, y)"
proof -
  have comma: "'','' @ Itoa y = [] \<or>
      \<not> (is_digit (hd ('','' @ Itoa y)) \<or> hd ('','' @ Itoa y) = CHR ''_'')"
    by (simp add: is_digit_def)
  have first: "scanInt (Itoa x @ '','' @ Itoa y) = Some (x, '','' @ Itoa y)"
    using assms(1,2) comma by (rule scanInt_Itoa)
  have second: "scanInt (Itoa y) = Some (y, [])"
    using scanInt_Itoa [OF assms(3,4), of "[]"] by simp
  from first have first': "scanInt (Itoa x @ CHR '','' # Itoa y) = Some (x, CHR '','' # Itoa y)"
    by simp
  show ?thesis
    by (simp add: Sscanf_d_d_def first' second)
qed

text \<open>
  C4, as the code has it.  Let \<open>x\<close> and \<open>y\<close> be the two numbers that \<open>Connect\<close>
  scans from the server's \<open>heart-beat\<close> header (0 and 0 when the header is absent), both
  of at most 9223372036854 in absolute value, so that their milliseconds fit a
  \<open>Duration\<close>.  The negotiated send interval is the greater of the client's send
  interval and \<open>y\<close> milliseconds when both are non-zero, and zero otherwise; the
  negotiated receive interval is the greater of the client's receive interval and \<open>x\<close>
  milliseconds when both are non-zero, and zero otherwise.  A client asking for 1000 ms
  and 2000 ms and the header \<open>500,3000\<close> give 3000 ms and 2000 ms.
\<close>

theorem negotiate_intervals:
  assumes "(case hv of None \<Rightarrow> (0, 0) | Some v \<Rightarrow> Sscanf_d_d v) = (x, y)"
    and "\<bar>x\<bar> \<le> 9223372036854" and "\<bar>y\<bar> \<le> 9223372036854"
  shows "sint (Send (negotiate conf hv)) =
           (if Send conf \<noteq> 0 \<and> y \<noteq> 0 then max (sint (Send conf)) (1000000 * y) else 0) \<and>
         sint (Recv (negotiate conf hv)) =
           (if Recv conf \<noteq> 0 \<and> x \<noteq> 0 then max (sint (Recv conf)) (1000000 * x) else 0) \<and>
         (Send (negotiate conf hv) = 0) = (Send conf = 0 \<or> y = 0) \<and>
         (Recv (negotiate conf hv) = 0) = (Recv conf = 0 \<or> x = 0) \<and>
         negotiate \<lparr>Send = 1000 * Millisecond, Recv = 2000 * Millisecond\<rparr> (Some ''500,3000'')
           = \<lparr>Send = 3000 * Millisecond, Recv = 2000 * Millisecond\<rparr>"
proof -
  define server_send :: Duration where "server_send = Millisecond * word_of_int x"
  define server_recv :: Duration where "server_recv = Millisecond * word_of_int y"
  have neg: "negotiate conf hv =
      \<lparr>Send = (if Send conf \<noteq> 0 \<and> server_recv \<noteq> 0 then maxDuration (Send conf) server_recv else 0),
       Recv = (if Recv conf \<noteq> 0 \<and> server_send \<noteq> 0 then maxDuration (Recv conf) server_send else 0)\<rparr>"
  proof (cases hv)
    case None
    with assms(1) have "x = 0" "y = 0" by simp_all
    with None show ?thesis
      by (simp add: negotiate_def server_send_def server_recv_def)
  next
    case (Some v)
    with assms(1) have "Sscanf_d_d v = (x, y)" by simp
    with Some show ?thesis
      by (simp add: negotiate_def Let_def server_send_def server_recv_def)
  qed
  have ss: "sint server_send = 1000000 * x" and sr: "sint server_recv = 1000000 * y"
    unfolding server_send_def server_recv_def
    using assms(2,3) by (simp_all add: sint_Millisecond)
  have zs: "(server_send = 0) = (x = 0)"
  proof
    assume "server_send = 0"
    with ss show "x = 0" by simp
  next
    assume "x = 0"
    then show "server_send = 0" by (simp add: server_send_def)
  qed
  have zr: "(server_recv = 0) = (y = 0)"
  proof
    assume "server_recv = 0"
    with sr show "y = 0" by simp
  next
    assume "y = 0"
    then show "server_recv = 0" by (simp add: server_recv_def)
  qed
  have nz: "maxDuration a b \<noteq> 0" if "a \<noteq> 0" "b \<noteq> 0" for a b
    using that maxDuration_cases [of a b] by auto
  have g1: "sint (Send (negotiate conf hv)) =
           (if Send conf \<noteq> 0 \<and> y \<noteq> 0 then max (sint (Send conf)) (1000000 * y) else 0)"
    by (simp add: neg zr sint_maxDuration sr)
  have g2: "sint (Recv (negotiate conf hv)) =
           (if Recv conf \<noteq> 0 \<and> x \<noteq> 0 then max (sint (Recv conf)) (1000000 * x) else 0)"
    by (simp add: neg zs sint_maxDuration ss)
  have g3: "(Send (negotiate conf hv) = 0) = (Send conf = 0 \<or> y = 0)"
    using nz [of "Send conf" server_recv] by (auto simp: neg zr)
  have g4: "(Recv (negotiate conf hv) = 0) = (Recv conf = 0 \<or> x = 0)"
    using nz [of "Recv conf" server_send] by (auto simp: neg zs)
  have g5: "negotiate \<lparr>Send = 1000 * Millisecond, Recv = 2000 * Millisecond\<rparr> (Some ''500,3000'')
           = \<lparr>Send = 3000 * Millisecond, Recv = 2000 * Millisecond\<rparr>"
    by code_simp
  from g1 g2 g3 g4 g5 show ?thesis by blast
qed

text \<open>
  The header \<open>0,3000\<close>: the server sends no heartbeats, so receiving is disabled, and
  the client sends every 3000 ms.
\<close>

theorem negotiate_intervals_witness:
  "Recv (negotiate \<lparr>Send = 1000 * Millisecond, Recv = 2000 * Millisecond\<rparr> (Some ''0,3000'')) = 0 \<and>
   sint (Send (negotiate \<lparr>Send = 1000 * Millisecond, Recv = 2000 * Millisecond\<rparr> (Some ''0,3000'')))
     = 1000000 * 3000"
proof -
  have scan: "(case Some ''0,3000'' of None \<Rightarrow> (0, 0) | Some v \<Rightarrow> Sscanf_d_d v) = (0, 3000)"
    by code_simp
  have range: "\<bar>0 :: int\<bar> \<le> 9223372036854" "\<bar>3000 :: int\<bar> \<le> 9223372036854"
    by simp_all
  have client: "Send \<lparr>Send = 1000 * Millisecond, Recv = 2000 * Millisecond\<rparr> \<noteq> 0"
    "sint (Send \<lparr>Send = 1000 * Millisecond, Recv = 2000 * Millisecond\<rparr>) = 1000000000"
    by (simp_all add: Millisecond_def)
  from negotiate_intervals [OF scan range, of "\<lparr>Send = 1000 * Millisecond, Recv = 2000 * Millisecond\<rparr>"]
    client show ?thesis
    by simp
qed


text \<open>
  C4, as the claim has it, fails.  The header asks for 288230376151711744 ms both ways,
  that is \<open>2 ^ 58\<close> ms; the product with the 1000000 ns of a millisecond is a multiple
  of \<open>2 ^ 64\<close>, so that both durations of the server are 0 and both negotiated
  intervals are disabled, although the client and the server ask for non-zero
  intervals.
\<close>

theorem negotiate_overflow_counterexample:
  "Sscanf_d_d ''288230376151711744,288230376151711744'' = (288230376151711744, 288230376151711744) \<and>
   negotiate \<lparr>Send = 1000 * Millisecond, Recv = 2000 * Millisecond\<rparr>
       (Some ''288230376151711744,288230376151711744'')
     = \<lparr>Send = 0, Recv = 0\<rparr>"
  by code_simp

end
